theory Spec2Isabelle
  imports Complex_Main "HOL-Library.AList"
begin

section \<open>Data model of hub/models.py\<close>

text \<open>
  Money (a \<open>MoneyField\<close>) is an amount in minor units with a currency code.
  The time stamps \<open>buy_time\<close> and \<open>buy_date\<close> are filled by the database
  (\<open>auto_now_add\<close>) and read by no operation below; they are left out.
\<close>

type_synonym money = "int \<times> string"

datatype error = CannotBeScheduled | CannotBeUnscheduled | DoesNotExist | AttributeError

text \<open>A lesson instance: the content type of its model and its primary key.\<close>

record Lesson =
  content_type :: nat
  pk :: nat

text \<open>
  A product of the catalogue, as \<open>Subscription.__add_lessons_to_user\<close> reads it:
  \<open>LESSONS\<close> names the lesson relations, \<open>relations\<close> is what
  \<open>getattr(product, name).all()\<close> finds for a name that is an attribute.
\<close>

record Product =
  LESSONS :: "string list"
  relations :: "(string \<times> Lesson list) list"

text \<open>
  \<open>timeline.models.Entry\<close>. Modelled from the spec: the class is imported by
  hub/models.py and is not among the sources; its fields are those of the spec's
  CalendarEntry (teacher, lesson reference, start, end, the two allowance flags).
  \<open>finish\<close> is the field \<open>end\<close>. Times are minutes on one absolute axis.
\<close>

record Entry =
  pk :: "nat option"
  teacher :: nat
  lesson_type :: nat
  lesson_id :: nat
  start :: int
  finish :: int
  allow_besides_working_hours :: bool
  allow_overlap :: bool

record BuyableProduct =
  pk :: "nat option"
  buy_price :: money
  active :: int

record Subscription = BuyableProduct +
  customer :: nat
  product :: Product
  request :: "string option"

text \<open>
  The columns of \<open>Class\<close>, which are the stored row: \<open>timeline_entry_id\<close> is
  the column of the foreign key \<open>timeline_entry\<close>, \<open>subscription\<close> the key
  of the owning subscription.
\<close>

record Class_row = BuyableProduct +
  customer :: nat
  is_scheduled :: bool
  buy_source :: int
  lesson_type :: nat
  lesson_id :: nat
  timeline_entry_id :: "nat option"
  subscription :: "nat option"

text \<open>
  The instance in memory: the columns as attributes, and two attributes more.
  \<open>timeline_entry\<close> is the value of the attribute of that name: the entry object
  last assigned or loaded, or None. Beside it the instance keeps, in
  \<open>timeline_entry_id\<close>, the key that entry had when it was assigned; it is this
  cached key that a save writes to the row. \<open>request\<close> is the attribute a buyer
  may set on the instance, absent (None) by default and never stored.
\<close>

record Class = Class_row +
  timeline_entry :: "Entry option"
  request :: "string option"

text \<open>The relational store: one table per model, rows by primary key.\<close>

record Database =
  subscriptions :: "(nat \<times> Subscription) list"
  classes :: "(nat \<times> Class_row) list"
  entries :: "(nat \<times> Entry) list"

text \<open>
  A method call returns what it raised (None when it returned normally), the
  instance as the call left it, and the store as the call left it.
\<close>

type_synonym 'a outcome = "error option \<times> 'a \<times> Database"

section \<open>The object-relational layer\<close>

text \<open>Python's truth value of a primary key: None and 0 are false.\<close>

definition truthy :: "nat option \<Rightarrow> bool" where
  "truthy p = (case p of None \<Rightarrow> False | Some k \<Rightarrow> k \<noteq> 0)"

text \<open>A key the table does not hold yet; keys handed out start at 1.\<close>

definition fresh_pk :: "(nat \<times> 'r) list \<Rightarrow> nat" where
  "fresh_pk tbl = Suc (fold max (map fst tbl) 0)"

text \<open>
  \<open>Model.save\<close> of the framework: an instance without a key is inserted under a
  fresh one; an instance with a key overwrites the row of that key, or is inserted
  under it when there is no such row. It returns the key and the table.
\<close>

definition Model_save :: "nat option \<Rightarrow> (nat \<Rightarrow> 'r) \<Rightarrow> (nat \<times> 'r) list \<Rightarrow> nat \<times> (nat \<times> 'r) list" where
  "Model_save p row tbl =
     (let k = (case p of None \<Rightarrow> fresh_pk tbl | Some k \<Rightarrow> k)
      in (k, AList.update k (row k) tbl))"

text \<open>
  \<open>Entry.save\<close>. Modelled from the spec: timeline/models.py is not among the
  sources; the spec says of it only that it persists the entry.
\<close>

definition Entry_save :: "Entry \<Rightarrow> Database \<Rightarrow> Entry \<times> Database" where
  "Entry_save e db =
     (let (k, tbl) = Model_save (Entry.pk e) (\<lambda>k. e\<lparr>Entry.pk := Some k\<rparr>) (entries db)
      in (e\<lparr>Entry.pk := Some k\<rparr>, db\<lparr>entries := tbl\<rparr>))"

text \<open>The key under which \<open>Entry.save\<close> stores an entry.\<close>

definition entry_key :: "Entry \<Rightarrow> Database \<Rightarrow> nat" where
  "entry_key e db = (case Entry.pk e of None \<Rightarrow> fresh_pk (entries db) | Some k \<Rightarrow> k)"

text \<open>
  The assignment \<open>self.timeline_entry = v\<close>: the descriptor of the foreign key
  stores the object and caches the key the object has at that moment (None for an
  object that was never saved, and for None).
\<close>

definition set_timeline_entry :: "Entry option \<Rightarrow> Class \<Rightarrow> Class" where
  "set_timeline_entry v self =
     self\<lparr>timeline_entry := v, timeline_entry_id := Option.bind v Entry.pk\<rparr>"

text \<open>The row of an instance: its columns; the entry column is the cached key.\<close>

definition to_row :: "Class \<Rightarrow> Class_row" where
  "to_row c =
     \<lparr>pk = pk c, buy_price = buy_price c, active = active c, customer = customer c,
      is_scheduled = is_scheduled c, buy_source = buy_source c,
      lesson_type = lesson_type c, lesson_id = lesson_id c,
      timeline_entry_id = timeline_entry_id c, subscription = subscription c\<rparr>"

text \<open>
  The instance of a row read under key \<open>k\<close>, with the attribute
  \<open>timeline_entry\<close> resolved: the entry is fetched by the key in the entry column;
  a key with no entry behind it raises \<open>DoesNotExist\<close> (None here).
\<close>

definition from_row :: "Database \<Rightarrow> nat \<Rightarrow> Class_row \<Rightarrow> Class option" where
  "from_row db k r =
     (let inst = (\<lambda>te.
        \<lparr>pk = Some k, buy_price = buy_price r, active = active r, customer = customer r,
         is_scheduled = is_scheduled r, buy_source = buy_source r,
         lesson_type = lesson_type r, lesson_id = lesson_id r,
         timeline_entry_id = timeline_entry_id r, subscription = subscription r,
         timeline_entry = te, request = None\<rparr>)
      in case timeline_entry_id r of
           None \<Rightarrow> Some (inst None)
         | Some eid \<Rightarrow>
             (case map_of (entries db) eid of
                None \<Rightarrow> None
              | Some e \<Rightarrow> Some (inst (Some (e\<lparr>Entry.pk := Some eid\<rparr>)))))"

text \<open>\<open>super().save()\<close> of a Class and of a Subscription.\<close>

definition Class_super_save :: "Class \<Rightarrow> Database \<Rightarrow> Class \<times> Database" where
  "Class_super_save self db =
     (let (k, tbl) = Model_save (pk self) (\<lambda>k. to_row (self\<lparr>pk := Some k\<rparr>)) (classes db)
      in (self\<lparr>pk := Some k\<rparr>, db\<lparr>classes := tbl\<rparr>))"

definition Subscription_super_save :: "Subscription \<Rightarrow> Database \<Rightarrow> Subscription \<times> Database" where
  "Subscription_super_save self db =
     (let (k, tbl) = Model_save (pk self) (\<lambda>k. self\<lparr>pk := Some k\<rparr>) (subscriptions db)
      in (self\<lparr>pk := Some k\<rparr>, db\<lparr>subscriptions := tbl\<rparr>))"

text \<open>
  \<open>entry.classes.remove(obj)\<close> of the related manager. It first asks whether
  \<open>obj\<close> belongs to the entry, comparing the key cached on \<open>obj\<close> with the key
  of the entry, and raises \<open>DoesNotExist\<close> when they differ. Otherwise it runs
  one UPDATE that clears the entry column of the row of \<open>obj\<close>, when that row
  points at \<open>entry\<close>.
\<close>

definition classes_remove :: "Entry \<Rightarrow> Class \<Rightarrow> Database \<Rightarrow> error option \<times> Database" where
  "classes_remove entry obj db =
     (if timeline_entry_id obj \<noteq> Entry.pk entry then (Some DoesNotExist, db)
      else (None,
            db\<lparr>classes :=
                 map (\<lambda>(k, r).
                        if pk obj = Some k \<and> timeline_entry_id r \<noteq> None \<and>
                           timeline_entry_id r = Entry.pk entry
                        then (k, r\<lparr>timeline_entry_id := None\<rparr>) else (k, r))
                     (classes db)\<rparr>))"

text \<open>\<open>self.classes.all()\<close> of a subscription: the rows whose subscription column is its key.\<close>

definition classes_all :: "Subscription \<Rightarrow> Database \<Rightarrow> (nat \<times> Class_row) list" where
  "classes_all self db =
     filter (\<lambda>(k, r). subscription r \<noteq> None \<and> subscription r = pk self) (classes db)"

section \<open>Class\<close>

definition Class_save :: "Class \<Rightarrow> Database \<Rightarrow> Class \<times> Database" where
  "Class_save self db =
     (let (self1, db1) =
            (case timeline_entry self of
               Some entry \<Rightarrow>
                 (let (self0, dbe) =
                        (if \<not> truthy (Entry.pk entry)
                         then (let (entry1, dbs) = Entry_save entry db
                               in (set_timeline_entry (Some entry1) self, dbs))
                         else (self, db))
                  in (self0\<lparr>is_scheduled := True\<rparr>, dbe))
             | None \<Rightarrow> (self\<lparr>is_scheduled := False\<rparr>, db));
          (self2, db2) = Class_super_save self1 db1
      in case timeline_entry self2 of
           Some entry \<Rightarrow>
             (let (entry2, db3) = Entry_save entry db2
              in (self2\<lparr>timeline_entry := Some entry2\<rparr>, db3))
         | None \<Rightarrow> (self2, db2))"

text \<open>
  \<open>entry.is_free\<close> and \<open>entry.is_fitting_working_hours()\<close> belong to the absent
  \<open>timeline.models.Entry\<close>; they are the parameters \<open>is_free\<close> and
  \<open>is_fitting_working_hours\<close>.
\<close>

definition can_be_scheduled :: "(Entry \<Rightarrow> bool) \<Rightarrow> (Entry \<Rightarrow> bool) \<Rightarrow> Class \<Rightarrow> Entry \<Rightarrow> bool" where
  "can_be_scheduled is_free is_fitting_working_hours self entry =
     (if is_scheduled self then False
      else if \<not> is_free entry then False
      else if lesson_type self \<noteq> Entry.lesson_type entry then False
      else if \<not> allow_besides_working_hours entry \<and> \<not> is_fitting_working_hours entry then False
      else True)"

definition assign_entry :: "(Entry \<Rightarrow> bool) \<Rightarrow> (Entry \<Rightarrow> bool) \<Rightarrow> Class \<Rightarrow> Entry \<Rightarrow> Database \<Rightarrow> Class outcome" where
  "assign_entry is_free is_fitting_working_hours self entry db =
     (if \<not> can_be_scheduled is_free is_fitting_working_hours self entry
      then (Some CannotBeScheduled, self, db)
      else (None, set_timeline_entry (Some entry) self, db))"

definition unschedule :: "Class \<Rightarrow> Database \<Rightarrow> Class outcome" where
  "unschedule self db =
     (case timeline_entry self of
        None \<Rightarrow> (Some CannotBeUnscheduled, self, db)
      | Some entry \<Rightarrow>
          (case classes_remove entry self db of
             (Some err, db1) \<Rightarrow> (Some err, self, db1)
           | (None, db1) \<Rightarrow>
               (let self1 = set_timeline_entry None self;
                    (entry1, db2) = Entry_save entry db1
                in (None, self1, db2))))"


section \<open>Subscription\<close>

text \<open>The constructor call \<open>Class(lesson=..., subscription=self, ...)\<close> with the field defaults.\<close>

definition new_Class :: "Subscription \<Rightarrow> Lesson \<Rightarrow> Class" where
  "new_Class self lesson =
     \<lparr>pk = None, buy_price = buy_price self, active = 1,
      customer = Subscription.customer self, is_scheduled = False, buy_source = 1,
      lesson_type = content_type lesson, lesson_id = Lesson.pk lesson,
      timeline_entry_id = None, subscription = pk self,
      timeline_entry = None, request = Subscription.request self\<rparr>"

text \<open>The inner loop of \<open>__add_lessons_to_user\<close>, over the lessons of one relation.\<close>

fun add_lessons :: "Subscription \<Rightarrow> Lesson list \<Rightarrow> Database \<Rightarrow> Database" where
  "add_lessons self [] db = db"
| "add_lessons self (lesson # lessons) db =
     add_lessons self lessons (snd (Class_save (new_Class self lesson) db))"

text \<open>The outer loop, over \<open>self.product.LESSONS\<close>.\<close>

fun add_lesson_types :: "Subscription \<Rightarrow> string list \<Rightarrow> Database \<Rightarrow> error option \<times> Database" where
  "add_lesson_types self [] db = (None, db)"
| "add_lesson_types self (name # names) db =
     (case map_of (relations (product self)) name of
        None \<Rightarrow> (Some AttributeError, db)
      | Some lessons \<Rightarrow> add_lesson_types self names (add_lessons self lessons db))"

definition add_lessons_to_user :: "Subscription \<Rightarrow> Database \<Rightarrow> error option \<times> Database" where
  "add_lessons_to_user self db = add_lesson_types self (LESSONS (product self)) db"

text \<open>The loop of \<open>__update_classes\<close>, over the rows \<open>self.classes.all()\<close> found.\<close>

fun update_each :: "Subscription \<Rightarrow> (nat \<times> Class_row) list \<Rightarrow> Database \<Rightarrow> error option \<times> Database" where
  "update_each self [] db = (None, db)"
| "update_each self ((k, r) # rows) db =
     (case from_row db k r of
        None \<Rightarrow> (Some DoesNotExist, db)
      | Some lesson \<Rightarrow>
          update_each self rows (snd (Class_save (lesson\<lparr>active := active self\<rparr>) db)))"

definition update_classes :: "Subscription \<Rightarrow> Database \<Rightarrow> error option \<times> Database" where
  "update_classes self db =
     (case Option.bind (pk self) (map_of (subscriptions db)) of
        None \<Rightarrow> (Some DoesNotExist, db)
      | Some orig \<Rightarrow>
          if active orig \<noteq> active self then update_each self (classes_all self db) db
          else (None, db))"

definition Subscription_save :: "Subscription \<Rightarrow> Database \<Rightarrow> Subscription outcome" where
  "Subscription_save self db =
     (let is_new = \<not> truthy (pk self)
      in case (if \<not> is_new then update_classes self db else (None, db)) of
           (Some err, db1) \<Rightarrow> (Some err, self, db1)
         | (None, db1) \<Rightarrow>
             (let (self1, db2) = Subscription_super_save self db1
              in if is_new
                 then (case add_lessons_to_user self1 db2 of (err, db3) \<Rightarrow> (err, self1, db3))
                 else (None, self1, db2)))"

text \<open>
  For the statements below: the lessons a product grants, in the order the loops of
  \<open>__add_lessons_to_user\<close> visit them; the row of a class provisioned for a
  lesson, before it has a key; and a stored row after its subscription has cascaded
  the value \<open>a\<close> of its active flag onto it.
\<close>

definition product_lessons :: "Product \<Rightarrow> Lesson list" where
  "product_lessons p =
     concat (map (\<lambda>name. case map_of (relations p) name of None \<Rightarrow> [] | Some lessons \<Rightarrow> lessons)
                 (LESSONS p))"

definition provisioned :: "Subscription \<Rightarrow> Lesson \<Rightarrow> Class_row" where
  "provisioned self lesson =
     \<lparr>pk = None, buy_price = buy_price self, active = 1,
      customer = Subscription.customer self, is_scheduled = False, buy_source = 1,
      lesson_type = content_type lesson, lesson_id = Lesson.pk lesson,
      timeline_entry_id = None, subscription = pk self\<rparr>"

definition cascaded :: "int \<Rightarrow> nat \<Rightarrow> Class_row \<Rightarrow> Class_row" where
  "cascaded a j r =
     r\<lparr>pk := Some j, active := a, is_scheduled := (timeline_entry_id r \<noteq> None)\<rparr>"

section \<open>Sync safety of an external event source\<close>

text \<open>
  An external event of a source; \<open>parent\<close> links an instance of a recurring
  series to the event that stands for the series.
\<close>

record ExternalEvent =
  src :: nat
  parent :: "nat option"

text \<open>
  Modelled from the spec: \<open>ExternalEventSource.__is_safe\<close> lives in
  extevents/models.py, which is not among the sources (only its tests are). The
  policy of section 4.6, word for word: the stored events of the source are the old
  ones, the fetched events the new ones.
\<close>

definition is_safe :: "ExternalEvent list \<Rightarrow> ExternalEvent list \<Rightarrow> bool" where
  "is_safe old_events new_events =
     (if length new_events \<ge> length old_events then True
      else if length new_events = 0 \<and> length old_events > 0 then False
      else (let non_recurring_old = length (filter (\<lambda>e. parent e = None) old_events)
            in length new_events * 2 \<ge> non_recurring_old))"

section \<open>Working hours and free slots\<close>

text \<open>
  Modelled from the spec: teachers/models.py (\<open>WorkingHours\<close>,
  \<open>Teacher.find_free_slots\<close>) is not among the sources (only its tests are).
  A date is its proleptic Gregorian ordinal, a time of day is in minutes, a datetime
  is in minutes on the axis of the entries. \<open>finish\<close> is the field \<open>end\<close>.
\<close>

record WorkingHours =
  teacher :: nat
  weekday :: nat
  start :: int
  finish :: int

text \<open>\<open>date.weekday()\<close>: Monday is 0; ordinal 1 is a Monday.\<close>

definition weekday_of :: "int \<Rightarrow> nat" where
  "weekday_of date = nat ((date + 6) mod 7)"

definition combine :: "int \<Rightarrow> int \<Rightarrow> int" where
  "combine date time = date * 1440 + time"

text \<open>
  Modelled from the spec, section 4.1: the template of the teacher for the weekday
  of the date (the first one, when several share the weekday), resolved to the
  datetimes of that date; None when there is no such template.
\<close>

definition for_date :: "WorkingHours list \<Rightarrow> nat \<Rightarrow> int \<Rightarrow> (int \<times> int) option" where
  "for_date hours t date =
     (case find (\<lambda>h. WorkingHours.teacher h = t \<and> weekday h = weekday_of date) hours of
        None \<Rightarrow> None
      | Some h \<Rightarrow> Some (combine date (WorkingHours.start h), combine date (WorkingHours.finish h)))"

text \<open>
  Modelled from the spec, section 4.2, step 2: every start time in the window, one
  per step of the granularity. The spec takes the granularity to be positive; with
  another one there is no finite sequence of steps, and no slot here.
\<close>

function slot_starts :: "int \<Rightarrow> int \<Rightarrow> int \<Rightarrow> int list" where
  "slot_starts s e period =
     (if s < e \<and> 0 < period then s # slot_starts (s + period) e period else [])"
  by pat_completeness auto
termination
  by (relation "measure (\<lambda>(s, e, period). nat (e - s))") auto

declare slot_starts.simps [simp del]

text \<open>Step 3: the half-open intervals \<open>[a_start, a_end)\<close> and that of the entry overlap.\<close>

definition overlaps :: "int \<Rightarrow> int \<Rightarrow> Entry \<Rightarrow> bool" where
  "overlaps a_start a_end b = (a_start < Entry.finish b \<and> Entry.start b < a_end)"

text \<open>
  Modelled from the spec, section 4.2, for the call without a lesson type (the one
  the properties below are about): None when the teacher has no working hours on the
  date; otherwise the generated starts, in order, without those whose slot overlaps
  an entry of the teacher.
\<close>

definition find_free_slots :: "WorkingHours list \<Rightarrow> Entry list \<Rightarrow> nat \<Rightarrow> int \<Rightarrow> int \<Rightarrow> int list option" where
  "find_free_slots hours timeline t date period =
     (case for_date hours t date of
        None \<Rightarrow> None
      | Some (s, e) \<Rightarrow>
          Some (filter
                  (\<lambda>slot. \<not> (\<exists>b \<in> set (filter (\<lambda>b. Entry.teacher b = t) timeline).
                                 overlaps slot (slot + period) b))
                  (slot_starts s e period)))"

section \<open>Sample data\<close>

text \<open>
  The objects the worked examples below run on: a collaborator that answers True for
  every entry, an empty store, an entry that was never saved, and a class bought
  singly that was never saved either.
\<close>

definition yes :: "Entry \<Rightarrow> bool" where
  "yes entry = True"

definition empty_db :: Database where
  "empty_db = \<lparr>subscriptions = [], classes = [], entries = []\<rparr>"

definition an_entry :: Entry where
  "an_entry =
     \<lparr>Entry.pk = None, Entry.teacher = 1, Entry.lesson_type = 7, Entry.lesson_id = 3,
      Entry.start = 840, Entry.finish = 870,
      allow_besides_working_hours = False, allow_overlap = True\<rparr>"

definition a_class :: Class where
  "a_class =
     \<lparr>pk = None, buy_price = (1000, ''USD''), active = 1, customer = 5,
      is_scheduled = False, buy_source = 0, lesson_type = 7, lesson_id = 3,
      timeline_entry_id = None, subscription = None,
      timeline_entry = None, request = None\<rparr>"

text \<open>The class after \<open>assign_entry\<close> and \<open>save\<close>, and the store that save leaves.\<close>

definition scheduled_class :: Class where
  "scheduled_class = fst (Class_save (set_timeline_entry (Some an_entry) a_class) empty_db)"

definition scheduled_db :: Database where
  "scheduled_db = snd (Class_save (set_timeline_entry (Some an_entry) a_class) empty_db)"

text \<open>
  The class to which the entry was attached before the entry had a key, after the
  caller has saved the entry himself (under key 1): the object carries its key, the
  key cached on the class is still None.
\<close>

definition stale_class :: Class where
  "stale_class =
     (set_timeline_entry (Some an_entry) a_class)\<lparr>timeline_entry := Some (an_entry\<lparr>Entry.pk := Some 1\<rparr>)\<rparr>"

definition stale_db :: Database where
  "stale_db = snd (Entry_save an_entry empty_db)"

text \<open>
  A product with two ordinary lessons and one master class, a subscription to it
  that was never saved, and a store that holds the subscription under key 1, a class
  bought singly, and a scheduled class of the subscription.
\<close>

definition a_product :: Product where
  "a_product =
     \<lparr>LESSONS = [''ordinary_lessons'', ''master_classes''],
      relations =
        [(''ordinary_lessons'', [\<lparr>content_type = 7, Lesson.pk = 1\<rparr>, \<lparr>content_type = 7, Lesson.pk = 2\<rparr>]),
         (''master_classes'', [\<lparr>content_type = 9, Lesson.pk = 4\<rparr>])]\<rparr>"

definition a_subscription :: Subscription where
  "a_subscription =
     \<lparr>pk = None, buy_price = (5000, ''USD''), active = 1, Subscription.customer = 5,
      product = a_product, Subscription.request = None\<rparr>"

definition single_row :: Class_row where
  "single_row = to_row (a_class\<lparr>pk := Some 1\<rparr>)"

definition linked_row :: Class_row where
  "linked_row =
     \<lparr>pk = Some 2, buy_price = (5000, ''USD''), active = 1, customer = 5,
      is_scheduled = True, buy_source = 1, lesson_type = 7, lesson_id = 1,
      timeline_entry_id = Some 1, subscription = Some 1\<rparr>"

definition subscribed_db :: Database where
  "subscribed_db =
     \<lparr>subscriptions = [(1, a_subscription\<lparr>pk := Some 1\<rparr>)],
      classes = [(1, single_row), (2, linked_row)],
      entries = [(1, an_entry\<lparr>Entry.pk := Some 1\<rparr>)]\<rparr>"

text \<open>
  The events of tests_safety.py: one with no parent, and an instance of the series
  of event 2.
\<close>

definition plain_event :: ExternalEvent where
  "plain_event = \<lparr>src = 1, parent = None\<rparr>"

definition child_event :: ExternalEvent where
  "child_event = \<lparr>src = 1, parent = Some 2\<rparr>"

text \<open>
  The working hours of tests_unit.py: teacher 1 works on Mondays 13:00 to 15:00 and
  on Tuesdays 17:00 to 19:00. 2016-07-18, a Monday, is ordinal 736163; 2016-07-20
  is a Wednesday.
\<close>

definition monday_hours :: WorkingHours where
  "monday_hours = \<lparr>teacher = 1, weekday = 0, start = 780, finish = 900\<rparr>"

definition tuesday_hours :: WorkingHours where
  "tuesday_hours = \<lparr>teacher = 1, weekday = 1, start = 1020, finish = 1140\<rparr>"

definition test_hours :: "WorkingHours list" where
  "test_hours = [monday_hours, tuesday_hours]"

definition timeline_entry_at :: "int \<Rightarrow> int \<Rightarrow> Entry" where
  "timeline_entry_at s e =
     \<lparr>Entry.pk = Some 1, Entry.teacher = 1, Entry.lesson_type = 7, Entry.lesson_id = 3,
      Entry.start = combine 736163 s, Entry.finish = combine 736163 e,
      allow_besides_working_hours = False, allow_overlap = False\<rparr>"

section \<open>Facts about the object-relational layer\<close>

lemma fold_max_ge: "(a::nat) \<le> fold max ks a"
  by (induction ks arbitrary: a) (auto intro: order_trans[OF max.cobounded2])

lemma fold_max_mem: "(k::nat) \<in> set ks \<Longrightarrow> k \<le> fold max ks a"
proof (induction ks arbitrary: a)
  case Nil then show ?case by simp
next
  case (Cons x xs)
  show ?case
  proof (cases "k = x")
    case True
    have "x \<le> max x a" by simp
    also have "\<dots> \<le> fold max xs (max x a)" by (rule fold_max_ge)
    finally show ?thesis using True by simp
  next
    case False
    with Cons show ?thesis by simp
  qed
qed

lemma fresh_pk_notin: "fresh_pk tbl \<notin> fst ` set tbl"
proof
  assume "fresh_pk tbl \<in> fst ` set tbl"
  then have "fresh_pk tbl \<in> set (map fst tbl)" by simp
  then have "fresh_pk tbl \<le> fold max (map fst tbl) 0" by (rule fold_max_mem)
  then show False by (simp add: fresh_pk_def)
qed

lemma fresh_pk_pos: "0 < fresh_pk tbl"
  by (simp add: fresh_pk_def)

lemma Entry_save_eq:
  "Entry_save e db =
     (e\<lparr>Entry.pk := Some (entry_key e db)\<rparr>,
      db\<lparr>entries := AList.update (entry_key e db) (e\<lparr>Entry.pk := Some (entry_key e db)\<rparr>) (entries db)\<rparr>)"
  by (simp add: Entry_save_def Model_save_def Let_def entry_key_def)

lemma Entry_save_frame:
  "classes (snd (Entry_save e db)) = classes db"
  "subscriptions (snd (Entry_save e db)) = subscriptions db"
  by (simp_all add: Entry_save_eq)

lemma Entry_save_stored:
  "map_of (entries (snd (Entry_save e db))) (entry_key e db) = Some (e\<lparr>Entry.pk := Some (entry_key e db)\<rparr>)"
  by (simp add: Entry_save_eq AList.update_conv')

lemma Entry_save_others:
  "j \<noteq> entry_key e db \<Longrightarrow> map_of (entries (snd (Entry_save e db))) j = map_of (entries db) j"
  by (simp add: Entry_save_eq AList.update_conv')

lemma entry_key_fresh:
  "map_of (entries db) j = Some e' \<Longrightarrow> Entry.pk e \<noteq> Some j \<Longrightarrow> j \<noteq> entry_key e db"
  using fresh_pk_notin [of "entries db"]
  by (auto simp: entry_key_def split: option.splits dest!: map_of_SomeD) (metis fst_conv image_eqI)

lemma classes_remove_refused:
  "timeline_entry_id obj \<noteq> Entry.pk entry \<Longrightarrow> classes_remove entry obj db = (Some DoesNotExist, db)"
  by (simp add: classes_remove_def)

lemma classes_remove_done:
  "timeline_entry_id obj = Entry.pk entry \<Longrightarrow> fst (classes_remove entry obj db) = None"
  by (simp add: classes_remove_def)

lemma classes_remove_keys: "map fst (classes (snd (classes_remove entry obj db))) = map fst (classes db)"
  by (simp add: classes_remove_def case_prod_beta comp_def)

lemma classes_remove_others:
  "(j, r) \<in> set (classes db) \<Longrightarrow> pk obj \<noteq> Some j \<Longrightarrow>
   (j, r) \<in> set (classes (snd (classes_remove entry obj db)))"
  by (force simp: classes_remove_def image_iff)

lemma classes_remove_own:
  "timeline_entry_id obj = Entry.pk entry \<Longrightarrow>
   (j, r) \<in> set (classes (snd (classes_remove entry obj db))) \<Longrightarrow> pk obj = Some j \<Longrightarrow>
   Entry.pk entry \<noteq> None \<Longrightarrow> timeline_entry_id r \<noteq> Entry.pk entry"
  by (auto simp: classes_remove_def split: if_splits)

lemma classes_remove_flags:
  "map (\<lambda>(j, r). is_scheduled r) (classes (snd (classes_remove entry obj db))) =
   map (\<lambda>(j, r). is_scheduled r) (classes db)"
  by (simp add: classes_remove_def case_prod_beta comp_def)

lemma classes_remove_entries: "entries (snd (classes_remove entry obj db)) = entries db"
  by (simp add: classes_remove_def)

lemma Class_save_None:
  "timeline_entry self = None \<Longrightarrow>
   Class_save self db = Class_super_save (self\<lparr>is_scheduled := False\<rparr>) db"
  by (simp add: Class_save_def Class_super_save_def Model_save_def Let_def split: prod.splits)

lemma unschedule_Some:
  "timeline_entry self = Some entry \<Longrightarrow> timeline_entry_id self = Entry.pk entry \<Longrightarrow>
   unschedule self db =
     (None, set_timeline_entry None self,
      snd (Entry_save entry (snd (classes_remove entry self db))))"
  by (simp add: unschedule_def classes_remove_def Let_def split: prod.splits)

lemma unschedule_stale:
  "timeline_entry self = Some entry \<Longrightarrow> timeline_entry_id self \<noteq> Entry.pk entry \<Longrightarrow>
   unschedule self db = (Some DoesNotExist, self, db)"
  by (simp add: unschedule_def classes_remove_def)

lemma scheduled_class_eq:
  "scheduled_class =
     a_class\<lparr>pk := Some 1, is_scheduled := True, timeline_entry_id := Some 1,
             timeline_entry := Some (an_entry\<lparr>Entry.pk := Some 1\<rparr>)\<rparr>"
  by (simp add: scheduled_class_def set_timeline_entry_def Class_save_def Class_super_save_def
      Entry_save_eq entry_key_def Model_save_def Let_def truthy_def fresh_pk_def a_class_def
      an_entry_def empty_db_def)

lemma scheduled_db_eq:
  "scheduled_db =
     \<lparr>subscriptions = [], classes = [(1, to_row scheduled_class)],
      entries = [(1, an_entry\<lparr>Entry.pk := Some 1\<rparr>)]\<rparr>"
  by (simp add: scheduled_class_eq scheduled_db_def set_timeline_entry_def Class_save_def
      Class_super_save_def Entry_save_eq entry_key_def Model_save_def Let_def truthy_def
      fresh_pk_def a_class_def an_entry_def empty_db_def to_row_def)

lemma stale_db_eq:
  "stale_db = \<lparr>subscriptions = [], classes = [], entries = [(1, an_entry\<lparr>Entry.pk := Some 1\<rparr>)]\<rparr>"
  by (simp add: stale_db_def Entry_save_eq entry_key_def fresh_pk_def an_entry_def empty_db_def)

text \<open>
  The entry column of the row can lag behind the instance. When the caller attaches
  an entry that has no key, saves the entry himself and then saves the class,
  \<open>save\<close> finds the entry with a key, does not refresh the cached key, and writes
  a row whose flag is set and whose entry column is empty; the instance has the
  entry attached and the flag set.
\<close>

lemma Class_save_stale:
  "timeline_entry stale_class = Some (an_entry\<lparr>Entry.pk := Some 1\<rparr>) \<and>
   timeline_entry_id stale_class = None \<and>
   is_scheduled (fst (Class_save stale_class stale_db)) \<and>
   timeline_entry (fst (Class_save stale_class stale_db)) = Some (an_entry\<lparr>Entry.pk := Some 1\<rparr>) \<and>
   map (\<lambda>(k, r). (is_scheduled r, timeline_entry_id r)) (classes (snd (Class_save stale_class stale_db)))
     = [(True, None)]"
  by (simp add: stale_class_def stale_db_eq set_timeline_entry_def Class_save_def Class_super_save_def
      Entry_save_eq entry_key_def Model_save_def Let_def truthy_def fresh_pk_def a_class_def
      an_entry_def to_row_def)

section \<open>Properties of the scheduling state machine\<close>



text \<open>
  C6. \<open>can_be_scheduled\<close> answers False when the class is already scheduled, when
  the entry is not free, when the lesson types differ, and when the entry neither
  fits the working hours nor allows scheduling besides them; it answers True when
  none of the four holds.
\<close>

theorem can_be_scheduled_iff:
  "can_be_scheduled is_free is_fitting_working_hours self entry =
     (\<not> is_scheduled self \<and> is_free entry \<and>
      lesson_type self = Entry.lesson_type entry \<and>
      \<not> (\<not> is_fitting_working_hours entry \<and> \<not> allow_besides_working_hours entry))"
  by (auto simp: can_be_scheduled_def)

text \<open>
  C10. When \<open>can_be_scheduled\<close> answers False, \<open>assign_entry\<close> raises
  \<open>CannotBeScheduled\<close> and leaves the class, with every field of it, and the
  store as they were.
\<close>

theorem assign_entry_failure_atomic:
  "\<not> can_be_scheduled is_free is_fitting_working_hours self entry \<Longrightarrow>
   assign_entry is_free is_fitting_working_hours self entry db = (Some CannotBeScheduled, self, db)"
  by (simp add: assign_entry_def)

text \<open>The same on a class whose flag is set: the entry is refused, nothing changes.\<close>

theorem assign_entry_failure_atomic_witness:
  "\<not> can_be_scheduled yes yes (a_class\<lparr>is_scheduled := True\<rparr>) an_entry \<and>
   assign_entry yes yes (a_class\<lparr>is_scheduled := True\<rparr>) an_entry empty_db =
     (Some CannotBeScheduled, a_class\<lparr>is_scheduled := True\<rparr>, empty_db)"
proof -
  have h: "\<not> can_be_scheduled yes yes (a_class\<lparr>is_scheduled := True\<rparr>) an_entry"
    by (simp add: can_be_scheduled_def)
  show ?thesis using h assign_entry_failure_atomic [OF h, of empty_db] by simp
qed

text \<open>
  C5, as the code has it. \<open>assign_entry\<close> raises \<open>CannotBeScheduled\<close> exactly
  when \<open>can_be_scheduled\<close> answers False, in particular whenever the flag
  \<open>is_scheduled\<close> is set, and then changes nothing. Otherwise it assigns the entry
  to the attribute of the instance and does no more: the flag is as it was. It is
  the next save of the class that persists the entry (under a key the table did not
  hold, when the entry had none; under its own key otherwise), stores that key in
  the row of the class and sets \<open>is_scheduled\<close>, on the instance and on the row.
\<close>

theorem assign_entry_then_save:
  "(fst (assign_entry F W self entry db) = Some CannotBeScheduled) = (\<not> can_be_scheduled F W self entry) \<and>
   (\<not> can_be_scheduled F W self entry \<longrightarrow>
      assign_entry F W self entry db = (Some CannotBeScheduled, self, db)) \<and>
   (is_scheduled self \<longrightarrow> assign_entry F W self entry db = (Some CannotBeScheduled, self, db)) \<and>
   (can_be_scheduled F W self entry \<longrightarrow>
      assign_entry F W self entry db = (None, set_timeline_entry (Some entry) self, db) \<and>
      timeline_entry (set_timeline_entry (Some entry) self) = Some entry \<and>
      is_scheduled (set_timeline_entry (Some entry) self) = is_scheduled self \<and>
      is_scheduled (fst (Class_save (set_timeline_entry (Some entry) self) db)) \<and>
      (\<exists>k. timeline_entry (fst (Class_save (set_timeline_entry (Some entry) self) db)) =
              Some (entry\<lparr>Entry.pk := Some k\<rparr>) \<and>
           map_of (entries (snd (Class_save (set_timeline_entry (Some entry) self) db))) k =
              Some (entry\<lparr>Entry.pk := Some k\<rparr>) \<and>
           (Entry.pk entry = None \<longrightarrow> k \<notin> fst ` set (entries db)) \<and>
           (\<forall>j. Entry.pk entry = Some j \<longrightarrow> k = j) \<and>
           (\<exists>c r. pk (fst (Class_save (set_timeline_entry (Some entry) self) db)) = Some c \<and>
              map_of (classes (snd (Class_save (set_timeline_entry (Some entry) self) db))) c = Some r \<and>
              timeline_entry_id r = Some k \<and> is_scheduled r)))"
proof -
  have a: "(fst (assign_entry F W self entry db) = Some CannotBeScheduled) = (\<not> can_be_scheduled F W self entry)"
    by (simp add: assign_entry_def)
  have a': "\<not> can_be_scheduled F W self entry \<longrightarrow>
      assign_entry F W self entry db = (Some CannotBeScheduled, self, db)"
    by (simp add: assign_entry_def)
  have b: "is_scheduled self \<longrightarrow> assign_entry F W self entry db = (Some CannotBeScheduled, self, db)"
    by (simp add: assign_entry_def can_be_scheduled_def)
  have c: "can_be_scheduled F W self entry \<longrightarrow>
      assign_entry F W self entry db = (None, set_timeline_entry (Some entry) self, db)"
    by (simp add: assign_entry_def)
  let ?s = "Class_save (set_timeline_entry (Some entry) self) db"
  have c1: "timeline_entry (set_timeline_entry (Some entry) self) = Some entry \<and>
      is_scheduled (set_timeline_entry (Some entry) self) = is_scheduled self"
    by (simp add: set_timeline_entry_def)
  have d: "is_scheduled (fst ?s)"
    by (auto simp: Class_save_def Class_super_save_def Entry_save_eq Model_save_def Let_def
        set_timeline_entry_def split: option.splits prod.splits if_splits)
  have e: "\<exists>k. timeline_entry (fst ?s) = Some (entry\<lparr>Entry.pk := Some k\<rparr>) \<and>
           map_of (entries (snd ?s)) k = Some (entry\<lparr>Entry.pk := Some k\<rparr>) \<and>
           (Entry.pk entry = None \<longrightarrow> k \<notin> fst ` set (entries db)) \<and>
           (\<forall>j. Entry.pk entry = Some j \<longrightarrow> k = j) \<and>
           (\<exists>c r. pk (fst ?s) = Some c \<and> map_of (classes (snd ?s)) c = Some r \<and>
              timeline_entry_id r = Some k \<and> is_scheduled r)"
  proof (cases "Entry.pk entry")
    case None
    then show ?thesis
      using fresh_pk_notin [of "entries db"]
      by (auto simp: Class_save_def Class_super_save_def Entry_save_eq entry_key_def Model_save_def
          Let_def to_row_def truthy_def set_timeline_entry_def AList.update_conv' split: prod.splits)
  next
    case (Some j)
    then show ?thesis
      by (auto simp: Class_save_def Class_super_save_def Entry_save_eq entry_key_def Model_save_def
          Let_def to_row_def truthy_def set_timeline_entry_def AList.update_conv' split: prod.splits)
  qed
  from a a' b c c1 d e show ?thesis by blast
qed

text \<open>
  On the sample class and entry: accepted when unscheduled, refused once the flag is
  set, refused for a lesson type that is not that of the entry.
\<close>

theorem assign_entry_then_save_witness:
  "can_be_scheduled yes yes a_class an_entry \<and>
   assign_entry yes yes a_class an_entry empty_db =
     (None, set_timeline_entry (Some an_entry) a_class, empty_db) \<and>
   is_scheduled (fst (Class_save (set_timeline_entry (Some an_entry) a_class) empty_db)) \<and>
   is_scheduled (a_class\<lparr>is_scheduled := True\<rparr>) \<and>
   assign_entry yes yes (a_class\<lparr>is_scheduled := True\<rparr>) an_entry empty_db =
     (Some CannotBeScheduled, a_class\<lparr>is_scheduled := True\<rparr>, empty_db) \<and>
   \<not> can_be_scheduled yes yes (a_class\<lparr>lesson_type := 8\<rparr>) an_entry \<and>
   assign_entry yes yes (a_class\<lparr>lesson_type := 8\<rparr>) an_entry empty_db =
     (Some CannotBeScheduled, a_class\<lparr>lesson_type := 8\<rparr>, empty_db)"
proof -
  have h: "can_be_scheduled yes yes a_class an_entry"
    by (simp add: can_be_scheduled_def yes_def a_class_def an_entry_def)
  from assign_entry_then_save [of yes yes a_class an_entry empty_db] h
  have "assign_entry yes yes a_class an_entry empty_db =
          (None, set_timeline_entry (Some an_entry) a_class, empty_db) \<and>
        is_scheduled (fst (Class_save (set_timeline_entry (Some an_entry) a_class) empty_db))"
    by blast
  moreover have g: "is_scheduled (a_class\<lparr>is_scheduled := True\<rparr>)"
    by simp
  moreover from assign_entry_then_save [of yes yes "a_class\<lparr>is_scheduled := True\<rparr>" an_entry empty_db] g
  have "assign_entry yes yes (a_class\<lparr>is_scheduled := True\<rparr>) an_entry empty_db =
          (Some CannotBeScheduled, a_class\<lparr>is_scheduled := True\<rparr>, empty_db)"
    by blast
  moreover have n: "\<not> can_be_scheduled yes yes (a_class\<lparr>lesson_type := 8\<rparr>) an_entry"
    by (simp add: can_be_scheduled_def yes_def a_class_def an_entry_def)
  moreover from assign_entry_then_save [of yes yes "a_class\<lparr>lesson_type := 8\<rparr>" an_entry empty_db] n
  have "assign_entry yes yes (a_class\<lparr>lesson_type := 8\<rparr>) an_entry empty_db =
          (Some CannotBeScheduled, a_class\<lparr>lesson_type := 8\<rparr>, empty_db)"
    by blast
  ultimately show ?thesis using h by blast
qed

text \<open>
  C5 as stated fails: after a successful \<open>assign_entry\<close> of a new entry the class
  is not marked scheduled and the entry is not persisted (it has no key, and the
  entry table is still empty).
\<close>

theorem assign_entry_leaves_flag:
  "assign_entry yes yes a_class an_entry empty_db =
     (None, set_timeline_entry (Some an_entry) a_class, empty_db) \<and>
   timeline_entry (set_timeline_entry (Some an_entry) a_class) = Some an_entry \<and>
   \<not> is_scheduled (set_timeline_entry (Some an_entry) a_class) \<and>
   Entry.pk an_entry = None \<and> entries empty_db = []"
  by (simp add: assign_entry_def can_be_scheduled_def set_timeline_entry_def yes_def a_class_def
      an_entry_def empty_db_def)

text \<open>
  C7, as the code has it. \<open>unschedule\<close> raises \<open>CannotBeUnscheduled\<close> exactly
  when no entry is attached, and then changes nothing. With an entry attached whose
  key is not the key cached on the instance, the related manager refuses with
  \<open>DoesNotExist\<close>, and nothing changes either. With an entry attached whose key
  is the cached one, it returns normally: the entry is detached from the instance,
  the entry column of the row of the class is cleared if that row points at the
  entry, and the entry is persisted: it is stored under a key, every other stored
  entry stays, the rows of all other classes stay as they are (so a class that still
  references the entry keeps it). The flag \<open>is_scheduled\<close> is left as it was, on
  the instance and on every row; the next save of the class clears it.
\<close>

theorem unschedule_detaches:
  "(fst (unschedule self db) = Some CannotBeUnscheduled) = (timeline_entry self = None) \<and>
   (timeline_entry self = None \<longrightarrow> unschedule self db = (Some CannotBeUnscheduled, self, db)) \<and>
   (\<forall>entry. timeline_entry self = Some entry \<and> timeline_entry_id self \<noteq> Entry.pk entry \<longrightarrow>
      unschedule self db = (Some DoesNotExist, self, db)) \<and>
   (\<forall>entry. timeline_entry self = Some entry \<and> timeline_entry_id self = Entry.pk entry \<longrightarrow>
      fst (unschedule self db) = None \<and>
      fst (snd (unschedule self db)) = set_timeline_entry None self \<and>
      timeline_entry (fst (snd (unschedule self db))) = None \<and>
      timeline_entry_id (fst (snd (unschedule self db))) = None \<and>
      (\<exists>k. map_of (entries (snd (snd (unschedule self db)))) k = Some (entry\<lparr>Entry.pk := Some k\<rparr>)) \<and>
      (\<forall>j e. map_of (entries db) j = Some e \<and> Entry.pk entry \<noteq> Some j \<longrightarrow>
             map_of (entries (snd (snd (unschedule self db)))) j = Some e) \<and>
      map fst (classes (snd (snd (unschedule self db)))) = map fst (classes db) \<and>
      (\<forall>j r. (j, r) \<in> set (classes db) \<and> pk self \<noteq> Some j \<longrightarrow>
             (j, r) \<in> set (classes (snd (snd (unschedule self db))))) \<and>
      (\<forall>j r. (j, r) \<in> set (classes (snd (snd (unschedule self db)))) \<and> pk self = Some j \<and>
             Entry.pk entry \<noteq> None \<longrightarrow> timeline_entry_id r \<noteq> Entry.pk entry) \<and>
      map (\<lambda>(j, r). is_scheduled r) (classes (snd (snd (unschedule self db)))) =
        map (\<lambda>(j, r). is_scheduled r) (classes db) \<and>
      is_scheduled (fst (snd (unschedule self db))) = is_scheduled self \<and>
      \<not> is_scheduled (fst (Class_save (fst (snd (unschedule self db))) (snd (snd (unschedule self db))))))"
proof -
  have a: "(fst (unschedule self db) = Some CannotBeUnscheduled) = (timeline_entry self = None)"
    by (simp add: unschedule_def classes_remove_def Let_def split: option.splits prod.splits)
  have b: "timeline_entry self = None \<longrightarrow> unschedule self db = (Some CannotBeUnscheduled, self, db)"
    by (simp add: unschedule_def)
  have s: "unschedule self db = (Some DoesNotExist, self, db)"
    if "timeline_entry self = Some entry" "timeline_entry_id self \<noteq> Entry.pk entry" for entry
    using that by (rule unschedule_stale)
  have c: "fst (unschedule self db) = None \<and>
      fst (snd (unschedule self db)) = set_timeline_entry None self \<and>
      timeline_entry (fst (snd (unschedule self db))) = None \<and>
      timeline_entry_id (fst (snd (unschedule self db))) = None \<and>
      (\<exists>k. map_of (entries (snd (snd (unschedule self db)))) k = Some (entry\<lparr>Entry.pk := Some k\<rparr>)) \<and>
      (\<forall>j e. map_of (entries db) j = Some e \<and> Entry.pk entry \<noteq> Some j \<longrightarrow>
             map_of (entries (snd (snd (unschedule self db)))) j = Some e) \<and>
      map fst (classes (snd (snd (unschedule self db)))) = map fst (classes db) \<and>
      (\<forall>j r. (j, r) \<in> set (classes db) \<and> pk self \<noteq> Some j \<longrightarrow>
             (j, r) \<in> set (classes (snd (snd (unschedule self db))))) \<and>
      (\<forall>j r. (j, r) \<in> set (classes (snd (snd (unschedule self db)))) \<and> pk self = Some j \<and>
             Entry.pk entry \<noteq> None \<longrightarrow> timeline_entry_id r \<noteq> Entry.pk entry) \<and>
      map (\<lambda>(j, r). is_scheduled r) (classes (snd (snd (unschedule self db)))) =
        map (\<lambda>(j, r). is_scheduled r) (classes db) \<and>
      is_scheduled (fst (snd (unschedule self db))) = is_scheduled self \<and>
      \<not> is_scheduled (fst (Class_save (fst (snd (unschedule self db))) (snd (snd (unschedule self db)))))"
    if h: "timeline_entry self = Some entry" and i: "timeline_entry_id self = Entry.pk entry" for entry
  proof -
    define db1 where "db1 = snd (classes_remove entry self db)"
    have u: "unschedule self db = (None, set_timeline_entry None self, snd (Entry_save entry db1))"
      unfolding db1_def using h i by (rule unschedule_Some)
    have e1: "entries db1 = entries db"
      unfolding db1_def by (rule classes_remove_entries)
    have c1: "\<exists>k. map_of (entries (snd (Entry_save entry db1))) k = Some (entry\<lparr>Entry.pk := Some k\<rparr>)"
      using Entry_save_stored [of entry db1] by blast
    have c2: "map_of (entries (snd (Entry_save entry db1))) j = Some e"
      if "map_of (entries db) j = Some e" "Entry.pk entry \<noteq> Some j" for j e
    proof -
      have "j \<noteq> entry_key entry db1"
        using that by (intro entry_key_fresh [of _ _ e]) (simp_all add: e1)
      then show ?thesis
        using that by (simp add: Entry_save_others e1)
    qed
    have c3: "map fst (classes db1) = map fst (classes db)"
      unfolding db1_def by (rule classes_remove_keys)
    have c4: "(j, r) \<in> set (classes db1)" if "(j, r) \<in> set (classes db)" "pk self \<noteq> Some j" for j r
      unfolding db1_def using that by (rule classes_remove_others)
    have c5: "timeline_entry_id r \<noteq> Entry.pk entry"
      if "(j, r) \<in> set (classes db1)" "pk self = Some j" "Entry.pk entry \<noteq> None" for j r
      using i that unfolding db1_def by (rule classes_remove_own)
    have c6: "map (\<lambda>(j, r). is_scheduled r) (classes db1) = map (\<lambda>(j, r). is_scheduled r) (classes db)"
      unfolding db1_def by (rule classes_remove_flags)
    have c7: "\<not> is_scheduled (fst (Class_save (set_timeline_entry None self) (snd (Entry_save entry db1))))"
      by (simp add: Class_save_None set_timeline_entry_def Class_super_save_def Model_save_def Let_def)
    have c8: "timeline_entry (set_timeline_entry None self) = None \<and>
              timeline_entry_id (set_timeline_entry None self) = None \<and>
              is_scheduled (set_timeline_entry None self) = is_scheduled self"
      by (simp add: set_timeline_entry_def)
    show ?thesis
      unfolding u
      using c1 c2 c3 c4 c5 c6 c7 c8
      apply (simp add: Entry_save_frame)
      apply blast
      done
  qed
  from a b s c show ?thesis by blast
qed

text \<open>
  On the sample data: refused for the unscheduled class, refused by the related
  manager for the class whose cached key lags, carried out for the scheduled one.
\<close>

theorem unschedule_detaches_witness:
  "timeline_entry a_class = None \<and>
   unschedule a_class empty_db = (Some CannotBeUnscheduled, a_class, empty_db) \<and>
   timeline_entry stale_class = Some (an_entry\<lparr>Entry.pk := Some 1\<rparr>) \<and>
   timeline_entry_id stale_class \<noteq> Entry.pk (an_entry\<lparr>Entry.pk := Some 1\<rparr>) \<and>
   unschedule stale_class stale_db = (Some DoesNotExist, stale_class, stale_db) \<and>
   timeline_entry scheduled_class = Some (an_entry\<lparr>Entry.pk := Some 1\<rparr>) \<and>
   timeline_entry_id scheduled_class = Entry.pk (an_entry\<lparr>Entry.pk := Some 1\<rparr>) \<and>
   fst (unschedule scheduled_class scheduled_db) = None \<and>
   timeline_entry (fst (snd (unschedule scheduled_class scheduled_db))) = None \<and>
   \<not> is_scheduled (fst (Class_save (fst (snd (unschedule scheduled_class scheduled_db)))
                                  (snd (snd (unschedule scheduled_class scheduled_db)))))"
proof -
  have h1: "timeline_entry a_class = None"
    by (simp add: a_class_def)
  have h2: "timeline_entry scheduled_class = Some (an_entry\<lparr>Entry.pk := Some 1\<rparr>) \<and>
            timeline_entry_id scheduled_class = Entry.pk (an_entry\<lparr>Entry.pk := Some 1\<rparr>)"
    by (simp add: scheduled_class_eq)
  have h3: "timeline_entry stale_class = Some (an_entry\<lparr>Entry.pk := Some 1\<rparr>) \<and>
            timeline_entry_id stale_class \<noteq> Entry.pk (an_entry\<lparr>Entry.pk := Some 1\<rparr>)"
    by (simp add: stale_class_def set_timeline_entry_def an_entry_def)
  from unschedule_detaches [of a_class empty_db] h1
  have "unschedule a_class empty_db = (Some CannotBeUnscheduled, a_class, empty_db)"
    by blast
  moreover from unschedule_detaches [of stale_class stale_db] h3
  have "unschedule stale_class stale_db = (Some DoesNotExist, stale_class, stale_db)"
    by blast
  moreover from unschedule_detaches [of scheduled_class scheduled_db] h2
  have "fst (unschedule scheduled_class scheduled_db) = None \<and>
        timeline_entry (fst (snd (unschedule scheduled_class scheduled_db))) = None \<and>
        \<not> is_scheduled (fst (Class_save (fst (snd (unschedule scheduled_class scheduled_db)))
                                  (snd (snd (unschedule scheduled_class scheduled_db)))))"
    by blast
  ultimately show ?thesis using h1 h2 h3 by blast
qed

text \<open>
  C7 as stated fails: for the class that went through \<open>assign_entry\<close> and
  \<open>save\<close>, \<open>unschedule\<close> returns normally and detaches the entry, and
  \<open>is_scheduled\<close> is still set, on the instance and on its row.
\<close>

theorem unschedule_leaves_flag:
  "scheduled_class = fst (Class_save (fst (snd (assign_entry yes yes a_class an_entry empty_db))) empty_db) \<and>
   scheduled_db = snd (Class_save (fst (snd (assign_entry yes yes a_class an_entry empty_db))) empty_db) \<and>
   fst (unschedule scheduled_class scheduled_db) = None \<and>
   timeline_entry (fst (snd (unschedule scheduled_class scheduled_db))) = None \<and>
   is_scheduled (fst (snd (unschedule scheduled_class scheduled_db))) \<and>
   map (\<lambda>(j, r). (timeline_entry_id r, is_scheduled r))
       (classes (snd (snd (unschedule scheduled_class scheduled_db)))) = [(None, True)]"
proof -
  have "assign_entry yes yes a_class an_entry empty_db =
          (None, set_timeline_entry (Some an_entry) a_class, empty_db)"
    by (simp add: assign_entry_def can_be_scheduled_def yes_def a_class_def an_entry_def)
  then have a: "scheduled_class = fst (Class_save (fst (snd (assign_entry yes yes a_class an_entry empty_db))) empty_db)"
    and a': "scheduled_db = snd (Class_save (fst (snd (assign_entry yes yes a_class an_entry empty_db))) empty_db)"
    by (simp_all add: scheduled_class_def scheduled_db_def)
  have u: "unschedule scheduled_class scheduled_db =
             (None, set_timeline_entry None scheduled_class,
              snd (Entry_save (an_entry\<lparr>Entry.pk := Some 1\<rparr>)
                     (snd (classes_remove (an_entry\<lparr>Entry.pk := Some 1\<rparr>) scheduled_class scheduled_db))))"
    by (rule unschedule_Some) (simp_all add: scheduled_class_eq)
  have b: "is_scheduled scheduled_class" by (simp add: scheduled_class_eq)
  have c: "map (\<lambda>(j, r). (timeline_entry_id r, is_scheduled r))
             (classes (snd (classes_remove (an_entry\<lparr>Entry.pk := Some 1\<rparr>) scheduled_class scheduled_db)))
             = [(None, True)]"
    by (simp add: classes_remove_def scheduled_db_eq) (simp add: scheduled_class_eq to_row_def)
  show ?thesis
    using a a' b c by (simp add: u Entry_save_frame set_timeline_entry_def)
qed

section \<open>Properties of the sync safety check\<close>

text \<open>
  C1. \<open>is_safe\<close> answers True when there are at least as many new events as
  old ones; False when there is no new event and some old one; and otherwise True
  exactly when twice the number of new events reaches the number of old events with
  no parent. So 10 old against 8 new is safe, 12 old of which 2 have no parent
  against 2 new is safe, 10 old against none is unsafe, 10 old against 3 new is unsafe.
\<close>

theorem is_safe_policy:
  "(length old_events \<le> length new_events \<longrightarrow> is_safe old_events new_events) \<and>
   (length new_events = 0 \<and> 0 < length old_events \<longrightarrow> \<not> is_safe old_events new_events) \<and>
   (length new_events < length old_events \<and> 0 < length new_events \<longrightarrow>
      is_safe old_events new_events =
        (length (filter (\<lambda>e. parent e = None) old_events) \<le> length new_events * 2)) \<and>
   is_safe (replicate 10 plain_event) (replicate 8 plain_event) \<and>
   is_safe (plain_event # plain_event # replicate 10 child_event) (replicate 2 plain_event) \<and>
   \<not> is_safe (replicate 10 plain_event) [] \<and>
   \<not> is_safe (replicate 10 plain_event) (replicate 3 plain_event)"
proof -
  have np: "filter (\<lambda>e. parent e = None) (replicate n plain_event) = replicate n plain_event" for n
    by (simp add: plain_event_def)
  have nc: "filter (\<lambda>e. parent e = None) (replicate n child_event) = []" for n
    by (simp add: child_event_def)
  have p: "parent plain_event = None" by (simp add: plain_event_def)
  show ?thesis
    by (simp add: is_safe_def Let_def np nc p)
qed

text \<open>One pair of event lists for each of the three cases.\<close>

theorem is_safe_policy_witness:
  "length [plain_event] \<le> length [plain_event, plain_event] \<and>
   is_safe [plain_event] [plain_event, plain_event] \<and>
   length ([] :: ExternalEvent list) = 0 \<and> 0 < length [plain_event] \<and> \<not> is_safe [plain_event] [] \<and>
   length [plain_event] < length [plain_event, child_event, child_event, child_event] \<and>
   0 < length [plain_event] \<and>
   is_safe [plain_event, child_event, child_event, child_event] [plain_event]"
proof -
  have h1: "length [plain_event] \<le> length [plain_event, plain_event]" by simp
  have h2: "length ([] :: ExternalEvent list) = 0 \<and> 0 < length [plain_event]" by simp
  have h3: "length [plain_event] < length [plain_event, child_event, child_event, child_event] \<and>
            0 < length [plain_event]" by simp
  have f: "length (filter (\<lambda>e. parent e = None) [plain_event, child_event, child_event, child_event])
             \<le> length [plain_event] * 2"
    by (simp add: plain_event_def child_event_def)
  from is_safe_policy [of "[plain_event]" "[plain_event, plain_event]"] h1
  have "is_safe [plain_event] [plain_event, plain_event]" by blast
  moreover from is_safe_policy [of "[plain_event]" "[]"] h2
  have "\<not> is_safe [plain_event] []" by blast
  moreover from is_safe_policy [of "[plain_event, child_event, child_event, child_event]" "[plain_event]"] h3 f
  have "is_safe [plain_event, child_event, child_event, child_event] [plain_event]" by blast
  ultimately show ?thesis using h1 h2 h3 by blast
qed

section \<open>Facts about working hours and slot generation\<close>

lemma slot_starts_step:
  "s < e \<Longrightarrow> 0 < period \<Longrightarrow> slot_starts s e period = s # slot_starts (s + period) e period"
  by (subst slot_starts.simps) simp

lemma slot_starts_stop: "\<not> s < e \<Longrightarrow> slot_starts s e period = []"
  by (subst slot_starts.simps) simp

lemma slot_starts_length:
  "0 < period \<Longrightarrow> length (slot_starts s e period) = nat (- ((s - e) div period))"
proof (induction s e period rule: slot_starts.induct)
  case (1 s e period)
  show ?case
  proof (cases "s < e")
    case True
    have d: "(s + period - e) div period = (s - e) div period + 1"
      proof -
      have e1: "s + period - e = (s - e) + period" by simp
      have "(s - e + period) div period = (s - e) div period + 1"
        using 1(2) by (intro div_add_self2) simp
      then show ?thesis by (simp only: e1)
    qed
    have neg: "(s - e) div period < 0"
      using True 1(2) by (simp add: pos_imp_zdiv_neg_iff)
    have "length (slot_starts s e period) = Suc (length (slot_starts (s + period) e period))"
      using True 1(2) by (subst slot_starts.simps) simp
    also have "\<dots> = Suc (nat (- ((s + period - e) div period)))"
      using 1(1) True 1(2) by simp
    also have "\<dots> = nat (- ((s - e) div period))"
      using neg by (simp add: d)
    finally show ?thesis .
  next
    case False
    then have "0 \<le> (s - e) div period"
      using 1(2) by (simp add: pos_imp_zdiv_nonneg_iff)
    then show ?thesis
      using False by (subst slot_starts.simps) simp
  qed
qed

lemma slot_starts_nth:
  "0 < period \<Longrightarrow> i < length (slot_starts s e period) \<Longrightarrow>
   slot_starts s e period ! i = s + int i * period"
proof (induction s e period arbitrary: i rule: slot_starts.induct)
  case (1 s e period)
  show ?case
  proof (cases "s < e")
    case True
    have u: "slot_starts s e period = s # slot_starts (s + period) e period"
      using True 1(2) by (subst slot_starts.simps) simp
    show ?thesis
    proof (cases i)
      case 0
      then show ?thesis by (simp add: u)
    next
      case (Suc j)
      with 1(3) u have "j < length (slot_starts (s + period) e period)" by simp
      with 1(1) True 1(2) have "slot_starts (s + period) e period ! j = s + period + int j * period"
        by simp
      then show ?thesis using Suc by (simp add: u algebra_simps)
    qed
  next
    case False
    with 1(3) show ?thesis by (subst (asm) slot_starts.simps) simp
  qed
qed

lemma slot_starts_bounds:
  "slot \<in> set (slot_starts s e period) \<Longrightarrow> s \<le> slot \<and> slot < e"
proof (induction s e period rule: slot_starts.induct)
  case (1 s e period)
  show ?case
  proof (cases "s < e \<and> 0 < period")
    case True
    then have u: "slot_starts s e period = s # slot_starts (s + period) e period"
      by (subst slot_starts.simps) simp
    from 1(2) u have "slot = s \<or> slot \<in> set (slot_starts (s + period) e period)" by simp
    then show ?thesis
    proof
      assume "slot = s" then show ?thesis using True by simp
    next
      assume "slot \<in> set (slot_starts (s + period) e period)"
      with 1(1) True have "s + period \<le> slot \<and> slot < e" by simp
      then show ?thesis using True by simp
    qed
  next
    case False
    with 1(2) show ?thesis by (subst (asm) slot_starts.simps) auto
  qed
qed

lemma slot_starts_last:
  "s < e \<Longrightarrow> 0 < period \<Longrightarrow> hd (slot_starts s e period) = s \<and> last (slot_starts s e period) < e"
proof -
  assume a: "s < e" "0 < period"
  then have ne: "slot_starts s e period \<noteq> []" by (simp add: slot_starts_step)
  then have "last (slot_starts s e period) \<in> set (slot_starts s e period)" by simp
  then have "last (slot_starts s e period) < e" by (simp add: slot_starts_bounds)
  then show ?thesis using a by (simp add: slot_starts_step)
qed

lemma for_date_Some:
  assumes "h \<in> set hours" "WorkingHours.teacher h = t" "weekday h = weekday_of date"
    and "\<forall>h' \<in> set hours. WorkingHours.teacher h' = t \<and> weekday h' = weekday_of date \<longrightarrow> h' = h"
  shows "for_date hours t date =
           Some (combine date (WorkingHours.start h), combine date (WorkingHours.finish h))"
proof (cases "find (\<lambda>h. WorkingHours.teacher h = t \<and> weekday h = weekday_of date) hours")
  case None
  with assms(1-3) show ?thesis by (auto simp: find_None_iff)
next
  case (Some h')
  then have "h' \<in> set hours" "WorkingHours.teacher h' = t \<and> weekday h' = weekday_of date"
    by (auto simp: find_Some_iff)
  with assms(4) have "h' = h" by blast
  with Some show ?thesis by (simp add: for_date_def)
qed

lemma for_date_None:
  "\<forall>h \<in> set hours. \<not> (WorkingHours.teacher h = t \<and> weekday h = weekday_of date) \<Longrightarrow>
   for_date hours t date = None"
  by (simp add: for_date_def find_None_iff[THEN iffD2])

lemma find_free_slots_unbooked:
  "for_date hours t date = Some (s, e) \<Longrightarrow> \<forall>b \<in> set timeline. Entry.teacher b \<noteq> t \<Longrightarrow>
   find_free_slots hours timeline t date period = Some (slot_starts s e period)"
  by (simp add: find_free_slots_def filter_empty_conv[THEN iffD2])

text \<open>The calls of tests_unit.py, on the working hours of its set-up.\<close>

lemma free_slots_monday_30: "find_free_slots test_hours [] 1 736163 30 = Some (map (combine 736163) [780, 810, 840, 870])"
  by (simp add: find_free_slots_def for_date_def test_hours_def monday_hours_def tuesday_hours_def weekday_of_def combine_def
      slot_starts_step slot_starts_stop)

lemma free_slots_monday_20: "find_free_slots test_hours [] 1 736163 20 = Some (map (combine 736163) [780, 800, 820, 840, 860, 880])"
  by (simp add: find_free_slots_def for_date_def test_hours_def monday_hours_def tuesday_hours_def weekday_of_def combine_def
      slot_starts_step slot_starts_stop)

lemma free_slots_wednesday: "find_free_slots test_hours [] 1 736165 30 = None"
  by (simp add: find_free_slots_def for_date_def test_hours_def monday_hours_def tuesday_hours_def weekday_of_def combine_def)

lemma free_slots_entry_on_grid: "find_free_slots test_hours [timeline_entry_at 840 870] 1 736163 30 = Some (map (combine 736163) [780, 810, 870])"
  by (simp add: find_free_slots_def for_date_def test_hours_def monday_hours_def tuesday_hours_def weekday_of_def combine_def
      slot_starts_step slot_starts_stop timeline_entry_at_def overlaps_def)

lemma free_slots_entry_off_grid: "find_free_slots test_hours [timeline_entry_at 850 880] 1 736163 30 = Some (map (combine 736163) [780, 810])"
  by (simp add: find_free_slots_def for_date_def test_hours_def monday_hours_def tuesday_hours_def weekday_of_def combine_def
      slot_starts_step slot_starts_stop timeline_entry_at_def overlaps_def)

section \<open>Properties of the free-slot finder\<close>

text \<open>
  C8. For a teacher whose template for the weekday of the date covers the window
  from \<open>start\<close> to \<open>finish\<close>, with a positive granularity and no entry of the
  teacher on the timeline, \<open>find_free_slots\<close> returns the ceiling of
  (finish - start) / granularity slots, the first at the start of the window, slot
  \<open>i\<close> at start + i * granularity, the last one before the end of the window.
  13:00 to 15:00 gives four slots at 30 minutes (the last at 14:30) and six at 20
  minutes (the last at 14:40). On a date with no template for the teacher it returns
  None, which is not the empty sequence.
\<close>

theorem find_free_slots_count:
  "(h \<in> set hours \<and> WorkingHours.teacher h = t \<and> weekday h = weekday_of date \<and>
    (\<forall>h' \<in> set hours. WorkingHours.teacher h' = t \<and> weekday h' = weekday_of date \<longrightarrow> h' = h) \<and>
    WorkingHours.start h < WorkingHours.finish h \<and> 0 < period \<and>
    (\<forall>b \<in> set timeline. Entry.teacher b \<noteq> t) \<longrightarrow>
      (\<exists>slots. find_free_slots hours timeline t date period = Some slots \<and>
         int (length slots) =
           \<lceil>real_of_int (WorkingHours.finish h - WorkingHours.start h) / real_of_int period\<rceil> \<and>
         hd slots = combine date (WorkingHours.start h) \<and>
         (\<forall>i < length slots. slots ! i = combine date (WorkingHours.start h) + int i * period) \<and>
         last slots < combine date (WorkingHours.finish h))) \<and>
   ((\<forall>h \<in> set hours. \<not> (WorkingHours.teacher h = t \<and> weekday h = weekday_of date)) \<longrightarrow>
      find_free_slots hours timeline t date period = None \<and>
      find_free_slots hours timeline t date period \<noteq> Some []) \<and>
   find_free_slots test_hours [] 1 736163 30 = Some (map (combine 736163) [780, 810, 840, 870]) \<and>
   find_free_slots test_hours [] 1 736163 20 =
     Some (map (combine 736163) [780, 800, 820, 840, 860, 880]) \<and>
   find_free_slots test_hours [] 1 736165 30 = None"
proof -
  have a: "\<exists>slots. find_free_slots hours timeline t date period = Some slots \<and>
         int (length slots) =
           \<lceil>real_of_int (WorkingHours.finish h - WorkingHours.start h) / real_of_int period\<rceil> \<and>
         hd slots = combine date (WorkingHours.start h) \<and>
         (\<forall>i < length slots. slots ! i = combine date (WorkingHours.start h) + int i * period) \<and>
         last slots < combine date (WorkingHours.finish h)"
    if h: "h \<in> set hours" "WorkingHours.teacher h = t" "weekday h = weekday_of date"
      "\<forall>h' \<in> set hours. WorkingHours.teacher h' = t \<and> weekday h' = weekday_of date \<longrightarrow> h' = h"
      and lt: "WorkingHours.start h < WorkingHours.finish h" and p: "0 < period"
      and free: "\<forall>b \<in> set timeline. Entry.teacher b \<noteq> t"
  proof -
    let ?s = "combine date (WorkingHours.start h)" and ?e = "combine date (WorkingHours.finish h)"
    have fd: "for_date hours t date = Some (?s, ?e)"
      using h by (rule for_date_Some)
    have r: "find_free_slots hours timeline t date period = Some (slot_starts ?s ?e period)"
      using fd free by (rule find_free_slots_unbooked)
    have se: "?s < ?e" using lt by (simp add: combine_def)
    have d: "?s - ?e = - (WorkingHours.finish h - WorkingHours.start h)"
      by (simp add: combine_def)
    have c: "\<lceil>real_of_int (WorkingHours.finish h - WorkingHours.start h) / real_of_int period\<rceil>
               = - ((?s - ?e) div period)"
      by (simp only: d ceiling_divide_eq_div)
    have pos: "0 \<le> - ((?s - ?e) div period)"
      using se p by (simp add: pos_imp_zdiv_neg_iff less_imp_le)
    have len: "int (length (slot_starts ?s ?e period)) =
                 \<lceil>real_of_int (WorkingHours.finish h - WorkingHours.start h) / real_of_int period\<rceil>"
      using pos by (simp only: c slot_starts_length [OF p])
    have nth: "\<forall>i < length (slot_starts ?s ?e period). slot_starts ?s ?e period ! i = ?s + int i * period"
      using p by (simp add: slot_starts_nth)
    from r len nth slot_starts_last [OF se p] show ?thesis by blast
  qed
  have b: "find_free_slots hours timeline t date period = None \<and>
           find_free_slots hours timeline t date period \<noteq> Some []"
    if "\<forall>h \<in> set hours. \<not> (WorkingHours.teacher h = t \<and> weekday h = weekday_of date)"
    using for_date_None [OF that] by (simp add: find_free_slots_def)
  from a b free_slots_monday_30 free_slots_monday_20 free_slots_wednesday show ?thesis by blast
qed

text \<open>On the Monday and the Wednesday of tests_unit.py.\<close>

theorem find_free_slots_count_witness:
  "monday_hours \<in> set test_hours \<and> WorkingHours.teacher monday_hours = 1 \<and>
   weekday monday_hours = weekday_of 736163 \<and>
   WorkingHours.start monday_hours < WorkingHours.finish monday_hours \<and> (0::int) < 30 \<and>
   (\<exists>slots. find_free_slots test_hours [] 1 736163 30 = Some slots \<and> int (length slots) = 4 \<and>
      hd slots = combine 736163 780 \<and> last slots < combine 736163 900) \<and>
   find_free_slots test_hours [] 1 736165 30 = None"
proof -
  have h: "monday_hours \<in> set test_hours \<and> WorkingHours.teacher monday_hours = 1 \<and>
      weekday monday_hours = weekday_of 736163 \<and>
      (\<forall>h' \<in> set test_hours. WorkingHours.teacher h' = 1 \<and> weekday h' = weekday_of 736163 \<longrightarrow> h' = monday_hours) \<and>
      WorkingHours.start monday_hours < WorkingHours.finish monday_hours \<and> (0::int) < 30 \<and>
      (\<forall>b \<in> set ([]::Entry list). Entry.teacher b \<noteq> 1)"
    by (simp add: test_hours_def monday_hours_def tuesday_hours_def weekday_of_def)
  have n: "\<forall>h \<in> set test_hours. \<not> (WorkingHours.teacher h = 1 \<and> weekday h = weekday_of 736165)"
    by (simp add: test_hours_def monday_hours_def tuesday_hours_def weekday_of_def)
  from find_free_slots_count [of monday_hours test_hours 1 736163 30 "[]"] h
  obtain slots where s: "find_free_slots test_hours [] 1 736163 30 = Some slots"
      "int (length slots) =
         \<lceil>real_of_int (WorkingHours.finish monday_hours - WorkingHours.start monday_hours) / real_of_int 30\<rceil>"
      "hd slots = combine 736163 (WorkingHours.start monday_hours)"
      "last slots < combine 736163 (WorkingHours.finish monday_hours)"
    by blast
  have "int (length slots) = 4" using s(2) by (simp add: monday_hours_def)
  moreover have "hd slots = combine 736163 780" using s(3) by (simp add: monday_hours_def)
  moreover have "last slots < combine 736163 900" using s(4) by (simp add: monday_hours_def)
  moreover from find_free_slots_count [of _ test_hours 1 736165 30 "[]"] n
  have "find_free_slots test_hours [] 1 736165 30 = None" by blast
  ultimately show ?thesis using s(1) h by blast
qed

text \<open>
  C9. A generated slot is dropped exactly when its interval overlaps an entry of
  the teacher, under the test slot < entry.end and entry.start < slot + granularity;
  the slots kept stay in order. On the 13:00 to 15:00 Monday at 30 minutes the entry
  14:00 to 14:30 removes the slot at 14:00 alone (the slots at 13:30 and 14:30 abut
  it and stay), and the entry 14:10 to 14:40 removes the slots at 14:00 and 14:30.
\<close>

theorem find_free_slots_overlap:
  "(for_date hours t date = Some (s, e) \<longrightarrow>
      (\<exists>slots. find_free_slots hours timeline t date period = Some slots \<and>
         (\<forall>slot. (slot \<in> set slots) =
            (slot \<in> set (slot_starts s e period) \<and>
             \<not> (\<exists>b \<in> set timeline. Entry.teacher b = t \<and>
                    slot < Entry.finish b \<and> Entry.start b < slot + period))) \<and>
         slots = filter (\<lambda>slot. slot \<in> set slots) (slot_starts s e period))) \<and>
   find_free_slots test_hours [] 1 736163 30 = Some (map (combine 736163) [780, 810, 840, 870]) \<and>
   find_free_slots test_hours [timeline_entry_at 840 870] 1 736163 30 =
     Some (map (combine 736163) [780, 810, 870]) \<and>
   find_free_slots test_hours [timeline_entry_at 850 880] 1 736163 30 =
     Some (map (combine 736163) [780, 810])"
proof -
  have a: "\<exists>slots. find_free_slots hours timeline t date period = Some slots \<and>
         (\<forall>slot. (slot \<in> set slots) =
            (slot \<in> set (slot_starts s e period) \<and>
             \<not> (\<exists>b \<in> set timeline. Entry.teacher b = t \<and>
                    slot < Entry.finish b \<and> Entry.start b < slot + period))) \<and>
         slots = filter (\<lambda>slot. slot \<in> set slots) (slot_starts s e period)"
    if fd: "for_date hours t date = Some (s, e)"
  proof -
    let ?P = "\<lambda>slot. \<not> (\<exists>b \<in> set (filter (\<lambda>b. Entry.teacher b = t) timeline).
                                 overlaps slot (slot + period) b)"
    have r: "find_free_slots hours timeline t date period = Some (filter ?P (slot_starts s e period))"
      using fd by (simp add: find_free_slots_def)
    have m: "\<forall>slot. (slot \<in> set (filter ?P (slot_starts s e period))) =
            (slot \<in> set (slot_starts s e period) \<and>
             \<not> (\<exists>b \<in> set timeline. Entry.teacher b = t \<and>
                    slot < Entry.finish b \<and> Entry.start b < slot + period))"
      by (auto simp: overlaps_def)
    have o: "filter ?P (slot_starts s e period) =
             filter (\<lambda>slot. slot \<in> set (filter ?P (slot_starts s e period))) (slot_starts s e period)"
      by (rule filter_cong) auto
    from r m o show ?thesis by blast
  qed
  from a free_slots_monday_30 free_slots_entry_on_grid free_slots_entry_off_grid show ?thesis by blast
qed

text \<open>On the Monday with the entry 14:10 to 14:40.\<close>

theorem find_free_slots_overlap_witness:
  "for_date test_hours 1 736163 = Some (combine 736163 780, combine 736163 900) \<and>
   (\<exists>slots. find_free_slots test_hours [timeline_entry_at 850 880] 1 736163 30 = Some slots \<and>
      combine 736163 810 \<in> set slots \<and> combine 736163 840 \<notin> set slots \<and>
      combine 736163 870 \<notin> set slots)"
proof -
  have fd: "for_date test_hours 1 736163 = Some (combine 736163 780, combine 736163 900)"
    by (simp add: for_date_def test_hours_def monday_hours_def tuesday_hours_def weekday_of_def)
  from find_free_slots_overlap [of test_hours 1 736163 "combine 736163 780" "combine 736163 900"
      "[timeline_entry_at 850 880]" 30] fd
  obtain slots where s: "find_free_slots test_hours [timeline_entry_at 850 880] 1 736163 30 = Some slots"
    "\<forall>slot. (slot \<in> set slots) =
            (slot \<in> set (slot_starts (combine 736163 780) (combine 736163 900) 30) \<and>
             \<not> (\<exists>b \<in> set [timeline_entry_at 850 880]. Entry.teacher b = 1 \<and>
                    slot < Entry.finish b \<and> Entry.start b < slot + 30))"
    by blast
  have "combine 736163 810 \<in> set slots"
    by (simp add: s(2) timeline_entry_at_def combine_def slot_starts_step slot_starts_stop)
  moreover have "combine 736163 840 \<notin> set slots"
    by (simp add: s(2) timeline_entry_at_def combine_def slot_starts_step slot_starts_stop)
  moreover have "combine 736163 870 \<notin> set slots"
    by (simp add: s(2) timeline_entry_at_def combine_def slot_starts_step slot_starts_stop)
  ultimately show ?thesis using fd s(1) by blast
qed

section \<open>Facts about provisioning and cascading\<close>

lemma update_fresh: "k \<notin> fst ` set al \<Longrightarrow> AList.update k v al = al @ [(k, v)]"
  by (induction al) auto

lemma Class_save_new:
  "pk c = None \<Longrightarrow> timeline_entry c = None \<Longrightarrow>
   snd (Class_save c db) =
     db\<lparr>classes := classes db @
        [(fresh_pk (classes db), (to_row c)\<lparr>pk := Some (fresh_pk (classes db)), is_scheduled := False\<rparr>)]\<rparr>"
  using fresh_pk_notin [of "classes db"]
  by (simp add: Class_save_None Class_super_save_def Model_save_def Let_def update_fresh to_row_def)

lemma add_lessons_step:
  "snd (Class_save (new_Class self lesson) db) =
     db\<lparr>classes := classes db @
        [(fresh_pk (classes db), (provisioned self lesson)\<lparr>pk := Some (fresh_pk (classes db))\<rparr>)]\<rparr>"
  by (subst Class_save_new) (simp_all add: new_Class_def provisioned_def to_row_def)

lemma add_lessons_frame:
  "subscriptions (add_lessons self lessons db) = subscriptions db \<and>
   entries (add_lessons self lessons db) = entries db"
  by (induction lessons arbitrary: db) (simp_all add: add_lessons_step)

lemma add_lessons_classes:
  "\<exists>new. classes (add_lessons self lessons db) = classes db @ new \<and>
         map (\<lambda>(k, r). r\<lparr>pk := None\<rparr>) new = map (provisioned self) lessons \<and>
         (\<forall>(k, r) \<in> set new. pk r = Some k \<and> k \<notin> fst ` set (classes db)) \<and>
         distinct (map fst new)"
proof (induction lessons arbitrary: db)
  case Nil
  then show ?case by simp
next
  case (Cons lesson lessons)
  let ?k = "fresh_pk (classes db)"
  let ?row = "(provisioned self lesson)\<lparr>pk := Some ?k\<rparr>"
  let ?db1 = "db\<lparr>classes := classes db @ [(?k, ?row)]\<rparr>"
  from Cons [of ?db1] obtain new where n:
    "classes (add_lessons self lessons ?db1) = classes ?db1 @ new"
    "map (\<lambda>(k, r). r\<lparr>pk := None\<rparr>) new = map (provisioned self) lessons"
    "\<forall>(k, r) \<in> set new. pk r = Some k \<and> k \<notin> fst ` set (classes ?db1)"
    "distinct (map fst new)"
    by blast
  have k: "?k \<notin> fst ` set (classes db)" by (rule fresh_pk_notin)
  have p: "?row\<lparr>pk := None\<rparr> = provisioned self lesson" by (simp add: provisioned_def)
  let ?new = "(?k, ?row) # new"
  have "classes (add_lessons self (lesson # lessons) db) = classes db @ ?new"
    using n(1) by (simp add: add_lessons_step)
  moreover have "map (\<lambda>(k, r). r\<lparr>pk := None\<rparr>) ?new = map (provisioned self) (lesson # lessons)"
    using n(2) p by simp
  moreover have "\<forall>(k, r) \<in> set ?new. pk r = Some k \<and> k \<notin> fst ` set (classes db)"
    using n(3) k by auto
  moreover have "distinct (map fst ?new)"
    using n(3,4) by force
  ultimately show ?case by blast
qed

lemma add_lesson_types_classes:
  "\<forall>name \<in> set names. map_of (relations (product self)) name \<noteq> None \<Longrightarrow>
   \<exists>db' new. add_lesson_types self names db = (None, db') \<and>
         subscriptions db' = subscriptions db \<and> entries db' = entries db \<and>
         classes db' = classes db @ new \<and>
         map (\<lambda>(k, r). r\<lparr>pk := None\<rparr>) new =
           map (provisioned self)
             (concat (map (\<lambda>name. case map_of (relations (product self)) name of
                                     None \<Rightarrow> [] | Some lessons \<Rightarrow> lessons) names)) \<and>
         (\<forall>(k, r) \<in> set new. pk r = Some k \<and> k \<notin> fst ` set (classes db)) \<and>
         distinct (map fst new)"
proof (induction names arbitrary: db)
  case Nil
  then show ?case by simp
next
  case (Cons name names)
  from Cons(2) obtain lessons where l: "map_of (relations (product self)) name = Some lessons"
    by auto
  let ?db1 = "add_lessons self lessons db"
  from add_lessons_classes [of self lessons db] obtain new1 where n1:
    "classes ?db1 = classes db @ new1"
    "map (\<lambda>(k, r). r\<lparr>pk := None\<rparr>) new1 = map (provisioned self) lessons"
    "\<forall>(k, r) \<in> set new1. pk r = Some k \<and> k \<notin> fst ` set (classes db)"
    "distinct (map fst new1)"
    by blast
  from Cons(2) have "\<forall>name \<in> set names. map_of (relations (product self)) name \<noteq> None"
    by simp
  from Cons(1) [OF this, of ?db1] obtain db' new2 where n2:
    "add_lesson_types self names ?db1 = (None, db')"
    "subscriptions db' = subscriptions ?db1" "entries db' = entries ?db1"
    "classes db' = classes ?db1 @ new2"
    "map (\<lambda>(k, r). r\<lparr>pk := None\<rparr>) new2 =
       map (provisioned self)
         (concat (map (\<lambda>name. case map_of (relations (product self)) name of
                                 None \<Rightarrow> [] | Some lessons \<Rightarrow> lessons) names))"
    "\<forall>(k, r) \<in> set new2. pk r = Some k \<and> k \<notin> fst ` set (classes ?db1)"
    "distinct (map fst new2)"
    by blast
  have a: "add_lesson_types self (name # names) db = (None, db')"
    using l n2(1) by simp
  have b: "subscriptions db' = subscriptions db \<and> entries db' = entries db"
    using n2(2,3) add_lessons_frame [of self lessons db] by simp
  have c: "classes db' = classes db @ (new1 @ new2)"
    using n1(1) n2(4) by simp
  have d: "map (\<lambda>(k, r). r\<lparr>pk := None\<rparr>) (new1 @ new2) =
       map (provisioned self)
         (concat (map (\<lambda>name. case map_of (relations (product self)) name of
                                 None \<Rightarrow> [] | Some lessons \<Rightarrow> lessons) (name # names)))"
    using n1(2) n2(5) l by simp
  have e: "\<forall>(k, r) \<in> set (new1 @ new2). pk r = Some k \<and> k \<notin> fst ` set (classes db)"
    using n1(3) n2(6) n1(1) by auto
  have "fst ` set new1 \<inter> fst ` set new2 = {}"
    using n2(6) n1(1) by force
  then have f: "distinct (map fst (new1 @ new2))"
    using n1(4) n2(7) by simp
  from a b c d e f show ?case by blast
qed

lemma truthy_None: "\<not> truthy None"
  by (simp add: truthy_def)

lemma Subscription_save_new:
  assumes "pk self = None"
    and "\<forall>name \<in> set (LESSONS (product self)). map_of (relations (product self)) name \<noteq> None"
  shows "\<exists>k db' new. Subscription_save self db = (None, self\<lparr>pk := Some k\<rparr>, db') \<and>
           0 < k \<and> k \<notin> fst ` set (subscriptions db) \<and>
           subscriptions db' = subscriptions db @ [(k, self\<lparr>pk := Some k\<rparr>)] \<and>
           entries db' = entries db \<and>
           classes db' = classes db @ new \<and>
           map (\<lambda>(j, r). r\<lparr>pk := None\<rparr>) new =
             map (provisioned (self\<lparr>pk := Some k\<rparr>)) (product_lessons (product self)) \<and>
           (\<forall>(j, r) \<in> set new. pk r = Some j \<and> j \<notin> fst ` set (classes db)) \<and>
           distinct (map fst new)"
proof -
  let ?k = "fresh_pk (subscriptions db)"
  let ?self1 = "self\<lparr>pk := Some ?k\<rparr>"
  let ?db2 = "db\<lparr>subscriptions := subscriptions db @ [(?k, ?self1)]\<rparr>"
  have k: "?k \<notin> fst ` set (subscriptions db)" by (rule fresh_pk_notin)
  have ss: "Subscription_super_save self db = (?self1, ?db2)"
    using assms(1) k by (simp add: Subscription_super_save_def Model_save_def Let_def update_fresh)
  have "\<forall>name \<in> set (LESSONS (product ?self1)). map_of (relations (product ?self1)) name \<noteq> None"
    using assms(2) by simp
  from add_lesson_types_classes [OF this, of ?db2] obtain db' new where n:
    "add_lesson_types ?self1 (LESSONS (product ?self1)) ?db2 = (None, db')"
    "subscriptions db' = subscriptions ?db2" "entries db' = entries ?db2"
    "classes db' = classes ?db2 @ new"
    "map (\<lambda>(k, r). r\<lparr>pk := None\<rparr>) new =
       map (provisioned ?self1)
         (concat (map (\<lambda>name. case map_of (relations (product ?self1)) name of
                                 None \<Rightarrow> [] | Some lessons \<Rightarrow> lessons) (LESSONS (product ?self1))))"
    "\<forall>(k, r) \<in> set new. pk r = Some k \<and> k \<notin> fst ` set (classes ?db2)"
    "distinct (map fst new)"
    by blast
  have "Subscription_save self db = (None, ?self1, db')"
    using assms(1) ss n(1)
    by (simp add: Subscription_save_def truthy_None add_lessons_to_user_def Let_def)
  moreover have "map (\<lambda>(j, r). r\<lparr>pk := None\<rparr>) new =
             map (provisioned ?self1) (product_lessons (product self))"
    using n(5) by (simp add: product_lessons_def)
  ultimately show ?thesis
    using k n(2,3,4,6,7) fresh_pk_pos [of "subscriptions db"] by auto
qed

lemma Class_save_loaded:
  assumes "from_row db j r = Some c"
  shows "classes (snd (Class_save (c\<lparr>active := a\<rparr>) db)) = AList.update j (cascaded a j r) (classes db)"
    and "subscriptions (snd (Class_save (c\<lparr>active := a\<rparr>) db)) = subscriptions db"
    and "fst ` set (entries db) \<subseteq> fst ` set (entries (snd (Class_save (c\<lparr>active := a\<rparr>) db)))"
proof -
  show "classes (snd (Class_save (c\<lparr>active := a\<rparr>) db)) = AList.update j (cascaded a j r) (classes db)"
  proof (cases "timeline_entry_id r")
    case None
    with assms show ?thesis
      by (cases r)
        (auto simp: from_row_def Let_def Class_save_None Class_super_save_def Model_save_def
          to_row_def cascaded_def)
  next
    case (Some eid)
    with assms show ?thesis
      by (cases r)
        (auto simp: from_row_def Let_def Class_save_def Class_super_save_def Model_save_def
          Entry_save_eq entry_key_def to_row_def cascaded_def truthy_def set_timeline_entry_def
          split: option.splits prod.splits if_splits)
  qed
  show "subscriptions (snd (Class_save (c\<lparr>active := a\<rparr>) db)) = subscriptions db"
    by (auto simp: Class_save_def Class_super_save_def Model_save_def Entry_save_eq Let_def
        set_timeline_entry_def split: option.splits prod.splits if_splits)
  show "fst ` set (entries db) \<subseteq> fst ` set (entries (snd (Class_save (c\<lparr>active := a\<rparr>) db)))"
    by (auto simp: Class_save_def Class_super_save_def Model_save_def Entry_save_eq Let_def
        set_timeline_entry_def AList.dom_update split: option.splits prod.splits if_splits)
qed

lemma from_row_Some:
  "\<forall>eid. timeline_entry_id r = Some eid \<longrightarrow> eid \<in> fst ` set (entries db) \<Longrightarrow>
   \<exists>c. from_row db j r = Some c"
  by (cases "timeline_entry_id r")
    (auto simp: from_row_def Let_def map_of_eq_None_iff split: option.splits)

lemma update_each_keys:
  "\<forall>(j, r) \<in> set rows. j \<in> fst ` set (classes db) \<Longrightarrow>
   map fst (classes (snd (update_each self rows db))) = map fst (classes db)"
proof (induction rows arbitrary: db)
  case Nil
  then show ?case by simp
next
  case (Cons row rows)
  obtain j r where row: "row = (j, r)" by (cases row)
  show ?case
  proof (cases "from_row db j r")
    case None
    then show ?thesis by (simp add: row)
  next
    case (Some c)
    let ?db1 = "snd (Class_save (c\<lparr>active := active self\<rparr>) db)"
    have j: "j \<in> fst ` set (classes db)" using Cons(2) row by auto
    have k: "map fst (classes ?db1) = map fst (classes db)"
      using j by (simp add: Class_save_loaded(1) [OF Some] AList.update_keys)
    then have "fst ` set (classes ?db1) = fst ` set (classes db)"
      by (metis list.set_map)
    with Cons(2) have "\<forall>(j, r) \<in> set rows. j \<in> fst ` set (classes ?db1)" by simp
    from Cons(1) [OF this] k show ?thesis using Some by (simp add: row)
  qed
qed

lemma update_each_cascade:
  assumes "distinct (map fst rows)"
    and "\<forall>(j, r) \<in> set rows. \<forall>eid. timeline_entry_id r = Some eid \<longrightarrow> eid \<in> fst ` set (entries db)"
  shows "fst (update_each self rows db) = None \<and>
         subscriptions (snd (update_each self rows db)) = subscriptions db \<and>
         (\<forall>j. map_of (classes (snd (update_each self rows db))) j =
                (case map_of rows j of
                   None \<Rightarrow> map_of (classes db) j
                 | Some r \<Rightarrow> Some (cascaded (active self) j r)))"
  using assms
proof (induction rows arbitrary: db)
  case Nil
  then show ?case by simp
next
  case (Cons row rows)
  obtain j r where row: "row = (j, r)" by (cases row)
  from Cons(3) row have "\<forall>eid. timeline_entry_id r = Some eid \<longrightarrow> eid \<in> fst ` set (entries db)"
    by simp
  then obtain c where c: "from_row db j r = Some c"
    using from_row_Some by blast
  define db1 where "db1 = snd (Class_save (c\<lparr>active := active self\<rparr>) db)"
  have d: "distinct (map fst rows)" and nj: "j \<notin> fst ` set rows"
    using Cons(2) row by simp_all
  have sub: "fst ` set (entries db) \<subseteq> fst ` set (entries db1)"
    unfolding db1_def by (rule Class_save_loaded(3) [OF c])
  have i: "\<forall>(j, r) \<in> set rows. \<forall>eid. timeline_entry_id r = Some eid \<longrightarrow> eid \<in> fst ` set (entries db1)"
  proof (intro ballI, clarify)
    fix j' r' eid
    assume "(j', r') \<in> set rows" "timeline_entry_id r' = Some eid"
    with Cons(3) have "eid \<in> fst ` set (entries db)" by (simp add: case_prod_beta)
    with sub show "eid \<in> fst ` set (entries db1)" by (rule subsetD)
  qed
  from Cons(1) [OF d i]
  have e1: "fst (update_each self rows db1) = None"
    and e2: "subscriptions (snd (update_each self rows db1)) = subscriptions db1"
    and e3: "\<And>j'. map_of (classes (snd (update_each self rows db1))) j' =
                (case map_of rows j' of
                   None \<Rightarrow> map_of (classes db1) j'
                 | Some r \<Rightarrow> Some (cascaded (active self) j' r))"
    by simp_all
  have u: "update_each self (row # rows) db = update_each self rows db1"
    using c by (simp add: row db1_def)
  have s: "subscriptions db1 = subscriptions db"
    unfolding db1_def by (rule Class_save_loaded(2) [OF c])
  have m: "map_of (classes db1) = (map_of (classes db))(j \<mapsto> cascaded (active self) j r)"
    unfolding db1_def by (simp only: Class_save_loaded(1) [OF c] AList.update_conv')
  have n: "map_of rows j = None"
    using nj by (simp add: map_of_eq_None_iff)
  have e4: "map_of (classes (snd (update_each self rows db1))) j' =
                (case map_of (row # rows) j' of
                   None \<Rightarrow> map_of (classes db) j'
                 | Some r \<Rightarrow> Some (cascaded (active self) j' r))" for j'
  proof (cases "j' = j")
    case True
    then show ?thesis by (simp add: e3 n m row)
  next
    case False
    then show ?thesis by (simp add: e3 m row split: option.splits)
  qed
  show ?case
    unfolding u using e1 e2 s e4 by simp
qed

lemma map_of_filter_distinct:
  "distinct (map fst al) \<Longrightarrow>
   map_of (filter P al) j =
     (case map_of al j of None \<Rightarrow> None | Some r \<Rightarrow> if P (j, r) then Some r else None)"
proof (induction al)
  case Nil
  then show ?case by simp
next
  case (Cons x al)
  obtain k v where x: "x = (k, v)" by (cases x)
  from Cons(2) x have nk: "map_of al k = None" and d: "distinct (map fst al)"
    by (simp_all add: map_of_eq_None_iff)
  show ?case
  proof (cases "j = k")
    case True
    with Cons(1) [OF d] nk show ?thesis by (simp add: x)
  next
    case False
    with Cons(1) [OF d] show ?thesis by (simp add: x)
  qed
qed

lemma classes_all_keys: "\<forall>(j, r) \<in> set (classes_all self db). j \<in> fst ` set (classes db)"
  by (auto simp: classes_all_def intro: rev_image_eqI)

lemma update_classes_keys:
  "map fst (classes (snd (update_classes self db))) = map fst (classes db)"
  by (simp add: update_classes_def update_each_keys [OF classes_all_keys] split: option.splits)

lemma Subscription_super_save_classes:
  "classes (snd (Subscription_super_save self db)) = classes db"
  by (simp add: Subscription_super_save_def Model_save_def Let_def)

lemma Subscription_save_old:
  "truthy (pk self) \<Longrightarrow>
   classes (snd (snd (Subscription_save self db))) = classes (snd (update_classes self db)) \<and>
   fst (Subscription_save self db) = fst (update_classes self db)"
  by (cases "update_classes self db")
    (auto simp: Subscription_save_def Let_def Subscription_super_save_def Model_save_def
      split: option.splits prod.splits)

section \<open>Properties of the provisioning pipeline\<close>

text \<open>
  C2. Saving a subscription that has no key yet (its creation), all of whose lesson
  relations the product has, returns normally, gives the subscription a key and
  stores it, and appends to the class table exactly one row per lesson of the
  product, in order: each with the price of the subscription, buy source 1 (from a
  subscription), the customer of the subscription, the key of the subscription,
  under a key of its own that the table did not hold. Saving a subscription that has
  a key (every later save) adds no row to the class table and removes none.
\<close>

theorem Subscription_save_provisions:
  "(pk self = None \<and>
    (\<forall>name \<in> set (LESSONS (product self)). map_of (relations (product self)) name \<noteq> None) \<longrightarrow>
      (\<exists>k new. fst (Subscription_save self db) = None \<and>
         fst (snd (Subscription_save self db)) = self\<lparr>pk := Some k\<rparr> \<and>
         truthy (Some k) \<and> k \<notin> fst ` set (subscriptions db) \<and>
         map_of (subscriptions (snd (snd (Subscription_save self db)))) k = Some (self\<lparr>pk := Some k\<rparr>) \<and>
         classes (snd (snd (Subscription_save self db))) = classes db @ new \<and>
         map (\<lambda>(j, r). r\<lparr>pk := None\<rparr>) new =
           map (\<lambda>lesson.
                  \<lparr>pk = None, buy_price = buy_price self, active = 1,
                   customer = Subscription.customer self, is_scheduled = False, buy_source = 1,
                   lesson_type = content_type lesson, lesson_id = Lesson.pk lesson,
                   timeline_entry_id = None, subscription = Some k\<rparr>)
               (product_lessons (product self)) \<and>
         (\<forall>(j, r) \<in> set new. pk r = Some j \<and> j \<notin> fst ` set (classes db)) \<and>
         distinct (map fst new))) \<and>
   (truthy (pk self) \<longrightarrow>
      map fst (classes (snd (snd (Subscription_save self db)))) = map fst (classes db))"
proof -
  have a: "\<exists>k new. fst (Subscription_save self db) = None \<and>
         fst (snd (Subscription_save self db)) = self\<lparr>pk := Some k\<rparr> \<and>
         truthy (Some k) \<and> k \<notin> fst ` set (subscriptions db) \<and>
         map_of (subscriptions (snd (snd (Subscription_save self db)))) k = Some (self\<lparr>pk := Some k\<rparr>) \<and>
         classes (snd (snd (Subscription_save self db))) = classes db @ new \<and>
         map (\<lambda>(j, r). r\<lparr>pk := None\<rparr>) new =
           map (\<lambda>lesson.
                  \<lparr>pk = None, buy_price = buy_price self, active = 1,
                   customer = Subscription.customer self, is_scheduled = False, buy_source = 1,
                   lesson_type = content_type lesson, lesson_id = Lesson.pk lesson,
                   timeline_entry_id = None, subscription = Some k\<rparr>)
               (product_lessons (product self)) \<and>
         (\<forall>(j, r) \<in> set new. pk r = Some j \<and> j \<notin> fst ` set (classes db)) \<and>
         distinct (map fst new)"
    if h: "pk self = None"
      "\<forall>name \<in> set (LESSONS (product self)). map_of (relations (product self)) name \<noteq> None"
  proof -
    from Subscription_save_new [OF h, of db] obtain k db' new where n:
      "Subscription_save self db = (None, self\<lparr>pk := Some k\<rparr>, db')"
      "0 < k" "k \<notin> fst ` set (subscriptions db)"
      "subscriptions db' = subscriptions db @ [(k, self\<lparr>pk := Some k\<rparr>)]"
      "classes db' = classes db @ new"
      "map (\<lambda>(j, r). r\<lparr>pk := None\<rparr>) new =
             map (provisioned (self\<lparr>pk := Some k\<rparr>)) (product_lessons (product self))"
      "\<forall>(j, r) \<in> set new. pk r = Some j \<and> j \<notin> fst ` set (classes db)"
      "distinct (map fst new)"
      by blast
    have t: "truthy (Some k)" using n(2) by (simp add: truthy_def)
    have m: "map_of (subscriptions db') k = Some (self\<lparr>pk := Some k\<rparr>)"
    proof -
      have "map_of (subscriptions db) k = None"
        using n(3) by (simp add: map_of_eq_None_iff)
      then show ?thesis by (simp add: n(4) map_add_def)
    qed
    have p: "provisioned (self\<lparr>pk := Some k\<rparr>) =
       (\<lambda>lesson.
                  \<lparr>pk = None, buy_price = buy_price self, active = 1,
                   customer = Subscription.customer self, is_scheduled = False, buy_source = 1,
                   lesson_type = content_type lesson, lesson_id = Lesson.pk lesson,
                   timeline_entry_id = None, subscription = Some k\<rparr>)"
      by (rule ext) (simp add: provisioned_def)
    show ?thesis
      using n(3,5,7,8) t m n(6) [unfolded p] by (simp only: n(1) fst_conv snd_conv) blast
  qed
  have b: "map fst (classes (snd (snd (Subscription_save self db)))) = map fst (classes db)"
    if "truthy (pk self)"
    using Subscription_save_old [OF that, of db] by (simp add: update_classes_keys)
  from a b show ?thesis by blast
qed

text \<open>On the sample subscription: three rows at creation, none added by the save that disables it.\<close>

theorem Subscription_save_provisions_witness:
  "pk a_subscription = None \<and>
   set (LESSONS (product a_subscription)) \<subseteq> fst ` set (relations (product a_subscription)) \<and>
   fst (Subscription_save a_subscription empty_db) = None \<and>
   length (classes (snd (snd (Subscription_save a_subscription empty_db)))) = 3 \<and>
   truthy (pk (a_subscription\<lparr>pk := Some 1, active := 0\<rparr>)) \<and>
   map fst (classes (snd (snd (Subscription_save (a_subscription\<lparr>pk := Some 1, active := 0\<rparr>)
                                                   subscribed_db)))) = [1, 2]"
proof -
  have h: "pk a_subscription = None \<and>
     (\<forall>name \<in> set (LESSONS (product a_subscription)).
       map_of (relations (product a_subscription)) name \<noteq> None)"
    by (simp add: a_subscription_def a_product_def)
  have t: "truthy (pk (a_subscription\<lparr>pk := Some 1, active := 0\<rparr>))"
    by (simp add: truthy_def)
  have l: "length (product_lessons (product a_subscription)) = 3"
    by (simp add: product_lessons_def a_subscription_def a_product_def)
  from Subscription_save_provisions [of a_subscription empty_db] h
  obtain k new where n: "fst (Subscription_save a_subscription empty_db) = None"
    "classes (snd (snd (Subscription_save a_subscription empty_db))) = classes empty_db @ new"
    "map (\<lambda>(j, r). r\<lparr>pk := None\<rparr>) new =
           map (\<lambda>lesson.
                  \<lparr>pk = None, buy_price = buy_price a_subscription, active = 1,
                   customer = Subscription.customer a_subscription, is_scheduled = False, buy_source = 1,
                   lesson_type = content_type lesson, lesson_id = Lesson.pk lesson,
                   timeline_entry_id = None, subscription = Some k\<rparr>)
               (product_lessons (product a_subscription))"
    by blast
  from n(3) have "length new = length (product_lessons (product a_subscription))"
    by (rule map_eq_imp_length_eq)
  with n(2) l have c: "length (classes (snd (snd (Subscription_save a_subscription empty_db)))) = 3"
    by (simp add: empty_db_def)
  from Subscription_save_provisions [of "a_subscription\<lparr>pk := Some 1, active := 0\<rparr>" subscribed_db] t
  have "map fst (classes (snd (snd (Subscription_save (a_subscription\<lparr>pk := Some 1, active := 0\<rparr>)
                                                   subscribed_db)))) = map fst (classes subscribed_db)"
    by blast
  then have d: "map fst (classes (snd (snd (Subscription_save (a_subscription\<lparr>pk := Some 1, active := 0\<rparr>)
                                                   subscribed_db)))) = [1, 2]"
    by (simp add: subscribed_db_def)
  have g: "set (LESSONS (product a_subscription)) \<subseteq> fst ` set (relations (product a_subscription))"
    by (simp add: a_subscription_def a_product_def)
  from h g n(1) c t d show ?thesis by blast
qed

text \<open>
  C3. Saving a subscription that is stored under its key, in a store whose class
  keys are distinct and whose classes of the subscription point at stored entries,
  returns normally and keeps the keys of the class table. When the active flag
  differs from the one stored for the subscription, every row linked to the
  subscription is rewritten with the new active flag (and with \<open>is_scheduled\<close>
  recomputed by the save of the class), and every other row is left as it is. When
  the stored flag equals the new one, the class table is left as it is.
\<close>

theorem Subscription_save_cascade:
  assumes "pk self = Some k" and "k \<noteq> 0" and "map_of (subscriptions db) k = Some orig"
    and "distinct (map fst (classes db))"
    and "\<forall>(j, r) \<in> set (classes db). subscription r = Some k \<longrightarrow>
           (\<forall>eid. timeline_entry_id r = Some eid \<longrightarrow> eid \<in> fst ` set (entries db))"
  shows "fst (Subscription_save self db) = None \<and>
         map fst (classes (snd (snd (Subscription_save self db)))) = map fst (classes db) \<and>
         (active orig \<noteq> active self \<longrightarrow>
            (\<forall>j r. map_of (classes db) j = Some r \<longrightarrow>
               map_of (classes (snd (snd (Subscription_save self db)))) j =
                 Some (if subscription r = Some k
                       then r\<lparr>pk := Some j, active := active self,
                              is_scheduled := (timeline_entry_id r \<noteq> None)\<rparr>
                       else r))) \<and>
         (active orig = active self \<longrightarrow>
            classes (snd (snd (Subscription_save self db))) = classes db)"
proof -
  have t: "truthy (pk self)" using assms(1,2) by (simp add: truthy_def)
  note old = Subscription_save_old [OF t, of db]
  have keys: "map fst (classes (snd (snd (Subscription_save self db)))) = map fst (classes db)"
    using old by (simp add: update_classes_keys)
  have same: "fst (Subscription_save self db) = None \<and>
              classes (snd (snd (Subscription_save self db))) = classes db"
    if "active orig = active self"
    using that assms(1,3) old by (simp add: update_classes_def)
  have diff: "fst (Subscription_save self db) = None \<and>
      (\<forall>j r. map_of (classes db) j = Some r \<longrightarrow>
               map_of (classes (snd (snd (Subscription_save self db)))) j =
                 Some (if subscription r = Some k
                       then r\<lparr>pk := Some j, active := active self,
                              is_scheduled := (timeline_entry_id r \<noteq> None)\<rparr>
                       else r))"
    if ne: "active orig \<noteq> active self"
  proof -
    let ?rows = "classes_all self db"
    have u: "update_classes self db = update_each self ?rows db"
      using ne assms(1,3) by (simp add: update_classes_def)
    have d: "distinct (map fst ?rows)"
      using assms(4) by (simp add: classes_all_def distinct_map_filter)
    have i: "\<forall>(j, r) \<in> set ?rows. \<forall>eid. timeline_entry_id r = Some eid \<longrightarrow> eid \<in> fst ` set (entries db)"
      using assms(5,1) by (auto simp: classes_all_def)
    from update_each_cascade [OF d i, of self]
    have e1: "fst (update_each self ?rows db) = None"
      and e3: "\<And>j. map_of (classes (snd (update_each self ?rows db))) j =
                (case map_of ?rows j of
                   None \<Rightarrow> map_of (classes db) j
                 | Some r \<Rightarrow> Some (cascaded (active self) j r))"
      by simp_all
    have f: "map_of ?rows j =
        (case map_of (classes db) j of None \<Rightarrow> None
         | Some r \<Rightarrow> if subscription r = Some k then Some r else None)" for j
      unfolding classes_all_def
      by (subst map_of_filter_distinct [OF assms(4)]) (auto simp: assms(1) split: option.splits)
    have g: "map_of (classes (snd (snd (Subscription_save self db)))) j =
                 Some (if subscription r = Some k
                       then r\<lparr>pk := Some j, active := active self,
                              is_scheduled := (timeline_entry_id r \<noteq> None)\<rparr>
                       else r)"
      if "map_of (classes db) j = Some r" for j r
      using that old by (simp add: u e3 f cascaded_def)
    from e1 g old u show ?thesis by simp
  qed
  from keys same diff show ?thesis by blast
qed

text \<open>On the sample store: the linked class is disabled, the class bought singly is untouched.\<close>

theorem Subscription_save_cascade_witness:
  "pk (a_subscription\<lparr>pk := Some 1, active := 0\<rparr>) = Some 1 \<and>
   map_of (subscriptions subscribed_db) 1 = Some (a_subscription\<lparr>pk := Some 1\<rparr>) \<and>
   distinct (map fst (classes subscribed_db)) \<and>
   active (a_subscription\<lparr>pk := Some 1\<rparr>) \<noteq> active (a_subscription\<lparr>pk := Some 1, active := 0\<rparr>) \<and>
   fst (Subscription_save (a_subscription\<lparr>pk := Some 1, active := 0\<rparr>) subscribed_db) = None \<and>
   map_of (classes (snd (snd (Subscription_save (a_subscription\<lparr>pk := Some 1, active := 0\<rparr>)
                                                 subscribed_db)))) 1 = Some single_row \<and>
   map_of (classes (snd (snd (Subscription_save (a_subscription\<lparr>pk := Some 1, active := 0\<rparr>)
                                                 subscribed_db)))) 2 = Some (linked_row\<lparr>active := 0\<rparr>) \<and>
   classes (snd (snd (Subscription_save (a_subscription\<lparr>pk := Some 1, buy_price := (1, ''USD'')\<rparr>)
                                         subscribed_db))) = classes subscribed_db"
proof -
  let ?off = "a_subscription\<lparr>pk := Some 1, active := 0\<rparr>"
  let ?same = "a_subscription\<lparr>pk := Some 1, buy_price := (1, ''USD'')\<rparr>"
  have h1: "pk ?off = Some 1" "pk ?same = Some 1" by simp_all
  have h2: "(1::nat) \<noteq> 0" by simp
  have h3: "map_of (subscriptions subscribed_db) 1 = Some (a_subscription\<lparr>pk := Some 1\<rparr>)"
    by (simp add: subscribed_db_def)
  have h4: "distinct (map fst (classes subscribed_db))"
    by (simp add: subscribed_db_def)
  have h5: "\<forall>(j, r) \<in> set (classes subscribed_db). subscription r = Some 1 \<longrightarrow>
           (\<forall>eid. timeline_entry_id r = Some eid \<longrightarrow> eid \<in> fst ` set (entries subscribed_db))"
    by (simp add: subscribed_db_def single_row_def linked_row_def to_row_def a_class_def)
  have ne: "active (a_subscription\<lparr>pk := Some 1\<rparr>) \<noteq> active ?off"
    by (simp add: a_subscription_def)
  have eq: "active (a_subscription\<lparr>pk := Some 1\<rparr>) = active ?same"
    by simp
  have r1: "map_of (classes subscribed_db) 1 = Some single_row"
    and r2: "map_of (classes subscribed_db) 2 = Some linked_row"
    by (simp_all add: subscribed_db_def)
  have s1: "subscription single_row \<noteq> Some 1"
    by (simp add: single_row_def to_row_def a_class_def)
  have s2: "subscription linked_row = Some 1"
    "linked_row\<lparr>pk := Some 2, active := active ?off,
                is_scheduled := (timeline_entry_id linked_row \<noteq> None)\<rparr>
       = linked_row\<lparr>active := 0\<rparr>"
    by (simp_all add: linked_row_def)
  note c = Subscription_save_cascade [OF h1(1) h2 h3 h4 h5]
  from c ne r1 s1
  have a: "map_of (classes (snd (snd (Subscription_save ?off subscribed_db)))) 1 = Some single_row"
    by simp
  from c ne r2 s2
  have b: "map_of (classes (snd (snd (Subscription_save ?off subscribed_db)))) 2 = Some (linked_row\<lparr>active := 0\<rparr>)"
    by simp
  from Subscription_save_cascade [OF h1(2) h2 h3 h4 h5] eq
  have d: "classes (snd (snd (Subscription_save ?same subscribed_db))) = classes subscribed_db"
    by blast
  from c have e: "fst (Subscription_save ?off subscribed_db) = None" by blast
  from h1(1) h3 h4 ne e a b d show ?thesis by blast
qed

end
